theory Spec2Isabelle
  imports Complex_Main
begin

section \<open>Floating-point numbers\<close>

text \<open>
  Python's \<^verbatim>\<open>float\<close> is IEEE binary64; a numpy array of floats is binary64 or binary32.
  Every operation returns the exact result rounded to nearest, ties to even.

  \<open>rne\<close> rounds a real to the nearest integer, ties to even. \<open>round_nearest p emin x\<close>
  rounds \<open>x\<close> to the nearest number of the format with \<open>p\<close> significant bits and least
  normal exponent \<open>emin\<close>: to a multiple of the unit in the last place of the binade of
  \<open>x\<close>, and below \<open>2 powi emin\<close> to a multiple of the least subnormal number (gradual
  underflow). Its result is the IEEE result whenever that is finite; a result above
  \<open>largest\<close> in magnitude is where IEEE arithmetic overflows to an infinity.
\<close>

definition rne :: "real \<Rightarrow> int" where
  "rne x = (let f = \<lfloor>x\<rfloor>; d = x - of_int f in
            if d < 1 / 2 then f else if 1 / 2 < d then f + 1 else if even f then f else f + 1)"

definition round_nearest :: "nat \<Rightarrow> int \<Rightarrow> real \<Rightarrow> real" where
  "round_nearest p emin x =
     (if x = 0 then 0
      else (let k = max \<lfloor>log 2 \<bar>x\<bar>\<rfloor> emin - (int p - 1)
            in of_int (rne (x / 2 powi k)) * 2 powi k))"

datatype float_format = Binary32 | Binary64

fun precision :: "float_format \<Rightarrow> nat" where
  "precision Binary32 = 24"
| "precision Binary64 = 53"

fun emin :: "float_format \<Rightarrow> int" where
  "emin Binary32 = - 126"
| "emin Binary64 = - 1022"

fun emax :: "float_format \<Rightarrow> int" where
  "emax Binary32 = 127"
| "emax Binary64 = 1023"

definition fl :: "float_format \<Rightarrow> real \<Rightarrow> real" where
  "fl fmt x = round_nearest (precision fmt) (emin fmt) x"

text \<open>The largest finite number of a format, \<open>(2 ^ p - 1) * 2 powi (emax - (p - 1))\<close>.\<close>

definition largest :: "float_format \<Rightarrow> real" where
  "largest fmt = (2 ^ precision fmt - 1) * 2 powi (emax fmt - (int (precision fmt) - 1))"

text \<open>The operation with exact result \<open>x\<close> does not overflow.\<close>

definition finite_in :: "float_format \<Rightarrow> real \<Rightarrow> bool" where
  "finite_in fmt x \<longleftrightarrow> \<bar>fl fmt x\<bar> \<le> largest fmt"

subsection \<open>Rounding to the nearest integer\<close>

lemma rne_of_int: "rne (of_int n) = n"
  by (simp add: rne_def)

lemma rne_cases: "rne x = \<lfloor>x\<rfloor> \<or> rne x = \<lfloor>x\<rfloor> + 1"
  by (simp add: rne_def Let_def)

lemma rne_mono: "x \<le> y \<Longrightarrow> rne x \<le> rne y"
proof -
  assume xy: "x \<le> y"
  then have fg: "\<lfloor>x\<rfloor> \<le> \<lfloor>y\<rfloor>" by (rule floor_mono)
  show ?thesis
  proof (cases "\<lfloor>x\<rfloor> = \<lfloor>y\<rfloor>")
    case False
    with fg have "\<lfloor>x\<rfloor> + 1 \<le> \<lfloor>y\<rfloor>" by simp
    moreover have "rne x \<le> \<lfloor>x\<rfloor> + 1" using rne_cases [of x] by auto
    moreover have "\<lfloor>y\<rfloor> \<le> rne y" using rne_cases [of y] by auto
    ultimately show ?thesis by simp
  next
    case True
    then have "x - of_int \<lfloor>x\<rfloor> \<le> y - of_int \<lfloor>y\<rfloor>" using xy by simp
    with True show ?thesis by (auto simp: rne_def Let_def)
  qed
qed

lemma rne_minus: "rne (- x) = - rne x"
proof (cases "x = of_int \<lfloor>x\<rfloor>")
  case True
  then obtain n where "x = of_int n" ..
  then have "- x = of_int (- n)" by simp
  then show ?thesis using \<open>x = of_int n\<close> by (simp only: rne_of_int)
next
  case False
  then have fl: "\<lfloor>- x\<rfloor> = - \<lfloor>x\<rfloor> - 1"
    by (simp add: floor_minus ceiling_altdef)
  have d: "- x - of_int (- \<lfloor>x\<rfloor> - 1) = 1 - (x - of_int \<lfloor>x\<rfloor>)" by simp
  define f where "f = \<lfloor>x\<rfloor>"
  define t where "t = x - of_int \<lfloor>x\<rfloor>"
  have ev: "even (- f - 1) \<longleftrightarrow> odd f" by simp
  show ?thesis
    unfolding rne_def Let_def fl d f_def [symmetric] t_def [symmetric] ev
    by (cases "t < 1 / 2"; cases "1 / 2 < t"; simp)
qed

subsection \<open>Rounding to a format\<close>

lemma round_nearest_zero: "round_nearest p em 0 = 0"
  by (simp add: round_nearest_def)

lemma binade:
  assumes "x \<noteq> 0"
  shows "2 powi \<lfloor>log 2 \<bar>x\<bar>\<rfloor> \<le> \<bar>x\<bar>" and "\<bar>x\<bar> < 2 powi (\<lfloor>log 2 \<bar>x\<bar>\<rfloor> + 1)"
proof -
  have pos: "0 < \<bar>x\<bar>" using assms by simp
  have tp: "(2::real) powr real_of_int i = 2 powi i" for i
    by (rule powr_real_of_int') simp_all
  from floor_log_eq_powr_iff [of "\<bar>x\<bar>" 2 "\<lfloor>log 2 \<bar>x\<bar>\<rfloor>"] pos
  have b: "2 powr real_of_int \<lfloor>log 2 \<bar>x\<bar>\<rfloor> \<le> \<bar>x\<bar>"
    "\<bar>x\<bar> < 2 powr (real_of_int \<lfloor>log 2 \<bar>x\<bar>\<rfloor> + 1)" by simp_all
  from b(1) show "2 powi \<lfloor>log 2 \<bar>x\<bar>\<rfloor> \<le> \<bar>x\<bar>" by (simp add: tp)
  from b(2) have "\<bar>x\<bar> < 2 powr real_of_int (\<lfloor>log 2 \<bar>x\<bar>\<rfloor> + 1)" by simp
  then show "\<bar>x\<bar> < 2 powi (\<lfloor>log 2 \<bar>x\<bar>\<rfloor> + 1)" by (simp only: tp)
qed

lemma binade_unique:
  assumes "2 powi e \<le> \<bar>x\<bar>" and "\<bar>x\<bar> < 2 powi (e + 1)"
  shows "\<lfloor>log 2 \<bar>x\<bar>\<rfloor> = e"
proof -
  have x0: "x \<noteq> 0" using assms(1) by (smt (verit) zero_less_power_int abs_zero)
  have pos: "0 < \<bar>x\<bar>" using x0 by simp
  have tp: "(2::real) powr real_of_int i = 2 powi i" for i
    by (rule powr_real_of_int') simp_all
  have a1: "2 powr real_of_int e \<le> \<bar>x\<bar>"
    using assms(1) by (simp add: tp)
  have "\<bar>x\<bar> < 2 powr real_of_int (e + 1)"
    using assms(2) by (simp only: tp)
  then have a2: "\<bar>x\<bar> < 2 powr (real_of_int e + 1)" by simp
  show ?thesis
    using floor_log_eq_powr_iff [of "\<bar>x\<bar>" 2 e] pos a1 a2 by simp
qed

text \<open>One rounding, evaluated from the binade \<open>e\<close> of its argument.\<close>

lemma round_nearest_eval:
  assumes "2 powi e \<le> \<bar>x\<bar>" and "\<bar>x\<bar> < 2 powi (e + 1)"
    and "rne (x / 2 powi (max e em - (int p - 1))) = n"
  shows "round_nearest p em x = of_int n * 2 powi (max e em - (int p - 1))"
proof -
  have x0: "x \<noteq> 0" using assms(1) by (smt (verit) zero_less_power_int abs_zero)
  from binade_unique [OF assms(1,2)] x0 assms(3) show ?thesis
    by (simp add: round_nearest_def Let_def)
qed

lemma round_nearest_minus: "round_nearest p em (- x) = - round_nearest p em x"
proof (cases "x = 0")
  case True
  then show ?thesis by (simp add: round_nearest_def)
next
  case False
  have "rne (- x / 2 powi k) = - rne (x / 2 powi k)" for k
    using rne_minus [of "x / 2 powi k"] by simp
  with False show ?thesis by (simp add: round_nearest_def Let_def)
qed

text \<open>
  A positive number rounds into the closed range from zero to the top of its binade (the
  binade \<open>emin\<close> for a subnormal number), and a normal number not below the bottom of
  its binade.
\<close>

lemma round_nearest_upper:
  assumes x: "0 < x" and e: "2 powi e \<le> x" "x < 2 powi (e + 1)"
  shows "round_nearest p em x \<le> 2 powi (max e em + 1)"
    and "0 \<le> round_nearest p em x"
proof -
  define k where "k = max e em - (int p - 1)"
  have q0: "(0::real) < 2 powi k" by simp
  have rn: "round_nearest p em x = of_int (rne (x / 2 powi k)) * 2 powi k"
    using round_nearest_eval [of e x em p "rne (x / 2 powi k)"] e x by (simp add: k_def)
  have ek1: "(2::real) powi (max e em + 1) = 2 ^ p * 2 powi k"
  proof -
    have "max e em + 1 = int p + k" by (simp add: k_def)
    then show ?thesis by (simp add: power_int_add)
  qed
  have "x < 2 powi (max e em + 1)"
  proof -
    have "(2::real) powi (e + 1) \<le> 2 powi (max e em + 1)"
      by (intro power_int_increasing) simp_all
    with e(2) show ?thesis by linarith
  qed
  then have hi: "x / 2 powi k \<le> of_int (2 ^ p)"
    using q0 by (simp add: ek1 pos_divide_le_eq)
  from rne_mono [OF hi] have "rne (x / 2 powi k) \<le> 2 ^ p" by (simp only: rne_of_int)
  then have "(of_int (rne (x / 2 powi k)) :: real) \<le> of_int (2 ^ p)"
    by (simp only: of_int_le_iff)
  then have "of_int (rne (x / 2 powi k)) \<le> (2::real) ^ p" by simp
  then show "round_nearest p em x \<le> 2 powi (max e em + 1)"
    using q0 by (simp add: rn ek1)
  have "of_int 0 \<le> x / 2 powi k" using x q0 by simp
  from rne_mono [OF this] have "0 \<le> rne (x / 2 powi k)" by (simp only: rne_of_int)
  then show "0 \<le> round_nearest p em x" using q0 by (simp add: rn)
qed

lemma round_nearest_lower:
  assumes x: "0 < x" and p: "1 \<le> p" and e: "2 powi e \<le> x" "x < 2 powi (e + 1)"
    and n: "em \<le> e"
  shows "2 powi e \<le> round_nearest p em x"
proof -
  define k where "k = e - (int p - 1)"
  have q0: "(0::real) < 2 powi k" by simp
  have mk: "max e em - (int p - 1) = k" using n by (simp add: k_def)
  have rn: "round_nearest p em x = of_int (rne (x / 2 powi k)) * 2 powi k"
    using round_nearest_eval [of e x em p "rne (x / 2 powi k)"] e x by (simp add: mk)
  have ek: "(2::real) powi e = 2 ^ (p - 1) * 2 powi k"
  proof -
    have "e = int (p - 1) + k" using p by (simp add: k_def)
    then show ?thesis by (simp add: power_int_add)
  qed
  have lo: "of_int (2 ^ (p - 1)) \<le> x / 2 powi k"
    using e(1) q0 by (simp add: ek pos_le_divide_eq)
  from rne_mono [OF lo] have "2 ^ (p - 1) \<le> rne (x / 2 powi k)" by (simp only: rne_of_int)
  then have "(of_int (2 ^ (p - 1)) :: real) \<le> of_int (rne (x / 2 powi k))"
    by (simp only: of_int_le_iff)
  then have "(2::real) ^ (p - 1) \<le> of_int (rne (x / 2 powi k))" by simp
  then show ?thesis
    using q0 by (simp add: rn ek)
qed

lemma round_nearest_nonneg:
  assumes "0 \<le> x"
  shows "0 \<le> round_nearest p em x"
proof (cases "x = 0")
  case True
  then show ?thesis by (simp add: round_nearest_zero)
next
  case False
  with assms have x: "0 < x" by simp
  from binade [of x] x have "2 powi \<lfloor>log 2 \<bar>x\<bar>\<rfloor> \<le> x" "x < 2 powi (\<lfloor>log 2 \<bar>x\<bar>\<rfloor> + 1)"
    by simp_all
  from round_nearest_upper(2) [OF x this] show ?thesis .
qed

lemma round_nearest_mono_pos:
  assumes x: "0 < x" and xy: "x \<le> y" and p: "1 \<le> p"
  shows "round_nearest p em x \<le> round_nearest p em y"
proof -
  define ex where "ex = \<lfloor>log 2 \<bar>x\<bar>\<rfloor>"
  define ey where "ey = \<lfloor>log 2 \<bar>y\<bar>\<rfloor>"
  have y: "0 < y" using x xy by simp
  have bx: "2 powi ex \<le> x" "x < 2 powi (ex + 1)"
    using binade [of x] x by (simp_all add: ex_def)
  have by': "2 powi ey \<le> y" "y < 2 powi (ey + 1)"
    using binade [of y] y by (simp_all add: ey_def)
  have le: "ex \<le> ey"
    unfolding ex_def ey_def using x y xy by (intro floor_mono) simp
  show ?thesis
  proof (cases "max ex em = max ey em")
    case True
    define k where "k = max ex em - (int p - 1)"
    have q0: "(0::real) < 2 powi k" by simp
    have fx: "round_nearest p em x = of_int (rne (x / 2 powi k)) * 2 powi k"
      using round_nearest_eval [of ex x em p "rne (x / 2 powi k)"] bx x by (simp add: k_def)
    have fy: "round_nearest p em y = of_int (rne (y / 2 powi k)) * 2 powi k"
      using round_nearest_eval [of ey y em p "rne (y / 2 powi k)"] by' y True by (simp add: k_def)
    have "x / 2 powi k \<le> y / 2 powi k" using xy q0 by (simp add: divide_right_mono)
    from rne_mono [OF this] have "(of_int (rne (x / 2 powi k)) :: real) \<le> of_int (rne (y / 2 powi k))"
      by (simp only: of_int_le_iff)
    then show ?thesis using q0 by (simp add: fx fy)
  next
    case False
    with le have lt: "max ex em + 1 \<le> ey" and n: "em \<le> ey" by auto
    then have "(2::real) powi (max ex em + 1) \<le> 2 powi ey" by (intro power_int_increasing) simp_all
    moreover have "round_nearest p em x \<le> 2 powi (max ex em + 1)"
      by (rule round_nearest_upper(1) [OF x bx])
    moreover have "2 powi ey \<le> round_nearest p em y"
      by (rule round_nearest_lower [OF y p by' n])
    ultimately show ?thesis by linarith
  qed
qed

lemma round_nearest_mono:
  assumes p: "1 \<le> p" and xy: "x \<le> y"
  shows "round_nearest p em x \<le> round_nearest p em y"
proof -
  consider "0 < x" | "x \<le> 0" "0 \<le> y" | "y < 0" using xy by linarith
  then show ?thesis
  proof cases
    case 1
    then show ?thesis by (rule round_nearest_mono_pos [OF _ xy p])
  next
    case 2
    from 2(1) have "0 \<le> round_nearest p em (- x)" by (intro round_nearest_nonneg) simp
    then have "round_nearest p em x \<le> 0" by (simp add: round_nearest_minus)
    moreover from 2(2) have "0 \<le> round_nearest p em y" by (rule round_nearest_nonneg)
    ultimately show ?thesis by linarith
  next
    case 3
    have "round_nearest p em (- y) \<le> round_nearest p em (- x)"
      using 3 xy by (intro round_nearest_mono_pos [OF _ _ p]) simp_all
    then show ?thesis by (simp add: round_nearest_minus)
  qed
qed

text \<open>A number on the grid of its own binade is a number of the format: it rounds to itself.\<close>

lemma round_nearest_grid:
  assumes "2 powi e \<le> \<bar>x\<bar>" and "\<bar>x\<bar> < 2 powi (e + 1)"
    and "x = of_int m * 2 powi (max e em - (int p - 1))"
  shows "round_nearest p em x = x"
proof -
  have "x / 2 powi (max e em - (int p - 1)) = of_int m"
    by (subst assms(3)) simp
  then have "rne (x / 2 powi (max e em - (int p - 1))) = m"
    by (simp only: rne_of_int)
  from round_nearest_eval [OF assms(1,2) this] assms(3) show ?thesis by simp
qed

lemma power_int_less_cancel:
  assumes "(2::real) powi a < 2 powi b"
  shows "a < b"
proof (rule ccontr)
  assume "\<not> a < b"
  then have "b \<le> a" by simp
  then have "(2::real) powi b \<le> 2 powi a" by (intro power_int_increasing) simp_all
  with assms show False by linarith
qed

lemma round_nearest_idem_pos:
  assumes x: "0 < x" and p: "1 \<le> p"
  shows "round_nearest p em (round_nearest p em x) = round_nearest p em x"
proof -
  define e where "e = \<lfloor>log 2 \<bar>x\<bar>\<rfloor>"
  define g where "g = max e em"
  define k where "k = g - (int p - 1)"
  define n where "n = rne (x / 2 powi k)"
  define y where "y = round_nearest p em x"
  have q0: "(0::real) < 2 powi k" by simp
  have bx: "2 powi e \<le> x" "x < 2 powi (e + 1)"
    using binade [of x] x by (simp_all add: e_def)
  have fx: "y = of_int n * 2 powi k"
    using round_nearest_eval [of e x em p n] bx x by (simp add: k_def g_def n_def y_def)
  have up: "y \<le> 2 powi (g + 1)" and y0: "0 \<le> y"
    using round_nearest_upper [OF x bx, of p em] by (simp_all add: g_def y_def)
  consider "y = 0" | "0 < y" "y < 2 powi (g + 1)" | "y = 2 powi (g + 1)"
    using up y0 by linarith
  then have "round_nearest p em y = y"
  proof cases
    case 1
    then show ?thesis by (simp add: round_nearest_zero)
  next
    case 2
    define ey where "ey = \<lfloor>log 2 \<bar>y\<bar>\<rfloor>"
    have b: "2 powi ey \<le> \<bar>y\<bar>" "\<bar>y\<bar> < 2 powi (ey + 1)"
      using binade [of y] 2(1) by (simp_all add: ey_def)
    have "(2::real) powi ey < 2 powi (g + 1)" using b(1) 2 by simp
    then have le: "ey \<le> g" using power_int_less_cancel [of ey "g + 1"] by simp
    have m: "max ey em = g"
    proof (cases "em \<le> e")
      case True
      with round_nearest_lower [OF x p bx True] have "2 powi e \<le> y" by (simp add: y_def)
      with b(2) 2(1) have "(2::real) powi e < 2 powi (ey + 1)" by simp
      then have "e \<le> ey" using power_int_less_cancel [of e "ey + 1"] by simp
      with le True show ?thesis by (simp add: g_def)
    next
      case False
      with le show ?thesis by (simp add: g_def)
    qed
    show ?thesis
      by (rule round_nearest_grid [OF b, of n]) (simp add: m fx k_def)
  next
    case 3
    have b: "2 powi (g + 1) \<le> \<bar>y\<bar>" "\<bar>y\<bar> < 2 powi (g + 1 + 1)"
    proof -
      show "2 powi (g + 1) \<le> \<bar>y\<bar>" using 3 by simp
      have "(2::real) powi (g + 1) < 2 powi (g + 1 + 1)"
        by (intro power_int_strict_increasing) simp_all
      then show "\<bar>y\<bar> < 2 powi (g + 1 + 1)" using 3 by simp
    qed
    have m: "max (g + 1) em = g + 1" by (simp add: g_def)
    have "g + 1 = int (p - 1) + (g + 1 - (int p - 1))" using p by simp
    moreover have "(2::real) powi (int (p - 1) + (g + 1 - (int p - 1))) =
        2 powi int (p - 1) * 2 powi (g + 1 - (int p - 1))"
      by (rule power_int_add) simp
    ultimately have "(2::real) powi (g + 1) = 2 powi int (p - 1) * 2 powi (g + 1 - (int p - 1))"
      by (simp only:)
    then have "y = of_int (2 ^ (p - 1)) * 2 powi (max (g + 1) em - (int p - 1))"
      by (simp add: 3 m)
    from round_nearest_grid [OF b this] show ?thesis .
  qed
  then show ?thesis by (simp add: y_def)
qed

lemma round_nearest_idem:
  assumes p: "1 \<le> p"
  shows "round_nearest p em (round_nearest p em x) = round_nearest p em x"
proof -
  consider "0 < x" | "x = 0" | "x < 0" by linarith
  then show ?thesis
  proof cases
    case 1
    then show ?thesis by (rule round_nearest_idem_pos [OF _ p])
  next
    case 2
    then show ?thesis by (simp add: round_nearest_zero)
  next
    case 3
    then have "round_nearest p em (round_nearest p em (- x)) = round_nearest p em (- x)"
      by (intro round_nearest_idem_pos [OF _ p]) simp
    then show ?thesis by (simp add: round_nearest_minus)
  qed
qed

text \<open>The integers up to \<open>2 ^ p\<close> in magnitude are numbers of the format.\<close>

lemma round_nearest_int_pos:
  assumes n: "0 < n" "n \<le> 2 ^ p" and p: "1 \<le> p" and em: "em \<le> 0"
  shows "round_nearest p em (of_int n) = of_int n"
proof -
  define x :: real where "x = of_int n"
  define e where "e = \<lfloor>log 2 \<bar>x\<bar>\<rfloor>"
  have x1: "1 \<le> x" using n by (simp add: x_def)
  have b: "2 powi e \<le> \<bar>x\<bar>" "\<bar>x\<bar> < 2 powi (e + 1)"
    using binade [of x] x1 by (simp_all add: e_def)
  have "(2::real) powi 0 < 2 powi (e + 1)" using b(2) x1 by simp
  then have e0: "0 \<le> e" using power_int_less_cancel [of 0 "e + 1"] by simp
  have xp: "x \<le> 2 ^ p"
  proof -
    have "(of_int n :: real) \<le> of_int (2 ^ p)" using n(2) by (simp only: of_int_le_iff)
    then show ?thesis by (simp add: x_def)
  qed
  have "(2::real) powi e < 2 powi (int p + 1)"
  proof -
    have "(2::real) ^ p < 2 powi (int p + 1)"
      using power_int_strict_increasing [of "int p" "int p + 1" "2::real"] by simp
    with b(1) x1 xp show ?thesis by simp
  qed
  then have ep: "e \<le> int p" using power_int_less_cancel [of e "int p + 1"] by simp
  have m: "max e em = e" using e0 em by simp
  show ?thesis
  proof (cases "e = int p")
    case True
    have "x = 2 ^ p"
    proof -
      have "(2::real) ^ p \<le> x" using b(1) x1 True by simp
      with xp show ?thesis by simp
    qed
    moreover have "(2::real) ^ p = of_int (2 ^ (p - 1)) * 2 powi (max e em - (int p - 1))"
    proof -
      have "max e em - (int p - 1) = 1" using True m by simp
      moreover have "(2::real) ^ p = 2 ^ (p - 1) * 2" using p by (cases p) simp_all
      ultimately show ?thesis by simp
    qed
    ultimately have "x = of_int (2 ^ (p - 1)) * 2 powi (max e em - (int p - 1))" by simp
    from round_nearest_grid [OF b this] show ?thesis by (simp add: x_def)
  next
    case False
    with ep have lt: "e \<le> int p - 1" by simp
    define j where "j = nat (int p - 1 - e)"
    have k: "max e em - (int p - 1) = - int j" using lt m by (simp add: j_def)
    have "(2::real) ^ j * 2 powi (- int j) = 1"
      by (simp add: power_int_minus)
    then have "x = of_int (n * 2 ^ j) * 2 powi (max e em - (int p - 1))"
      by (simp add: k x_def)
    from round_nearest_grid [OF b this] show ?thesis by (simp add: x_def)
  qed
qed

lemma round_nearest_int:
  assumes n: "\<bar>n\<bar> \<le> 2 ^ p" and p: "1 \<le> p" and em: "em \<le> 0"
  shows "round_nearest p em (of_int n) = of_int n"
proof -
  consider "0 < n" | "n = 0" | "n < 0" by linarith
  then show ?thesis
  proof cases
    case 1
    with n show ?thesis by (intro round_nearest_int_pos [OF _ _ p em]) simp_all
  next
    case 2
    then show ?thesis by (simp add: round_nearest_zero)
  next
    case 3
    with n have "round_nearest p em (of_int (- n)) = of_int (- n)"
      by (intro round_nearest_int_pos [OF _ _ p em]) simp_all
    then show ?thesis by (simp add: round_nearest_minus)
  qed
qed

subsection \<open>The two formats\<close>

lemma precision_ge: "1 \<le> precision fmt" "24 \<le> precision fmt"
  by (cases fmt; simp)+

lemma emin_le: "emin fmt \<le> 0"
  by (cases fmt) simp_all

lemma fl_zero: "fl fmt 0 = 0"
  by (simp add: fl_def round_nearest_zero)

lemma fl_minus: "fl fmt (- x) = - fl fmt x"
  by (simp add: fl_def round_nearest_minus)

lemma fl_mono: "x \<le> y \<Longrightarrow> fl fmt x \<le> fl fmt y"
  unfolding fl_def by (rule round_nearest_mono [OF precision_ge(1)])

lemma fl_idem: "fl fmt (fl fmt x) = fl fmt x"
  unfolding fl_def by (rule round_nearest_idem [OF precision_ge(1)])

lemma fl_int: "\<bar>n\<bar> \<le> 2 ^ precision fmt \<Longrightarrow> fl fmt (of_int n) = of_int n"
  unfolding fl_def by (rule round_nearest_int [OF _ precision_ge(1) emin_le])

lemma fl_numeral: "numeral w \<le> (16777216::int) \<Longrightarrow> fl fmt (numeral w) = numeral w"
proof -
  assume a: "numeral w \<le> (16777216::int)"
  have "(16777216::int) \<le> 2 ^ precision fmt" by (cases fmt) simp_all
  with a have "numeral w \<le> (2::int) ^ precision fmt" by linarith
  then have "\<bar>numeral w :: int\<bar> \<le> 2 ^ precision fmt" by simp
  from fl_int [OF this] show ?thesis by simp
qed

lemma fl_numeral64:
  "numeral w \<le> (9007199254740992::int) \<Longrightarrow> fl Binary64 (numeral w) = numeral w"
  using fl_int [of "numeral w" Binary64] by simp

lemma fl_one: "fl fmt 1 = 1"
  using fl_int [of 1 fmt] by simp

lemma fl_eval:
  assumes "2 powi e \<le> \<bar>x\<bar>" and "\<bar>x\<bar> < 2 powi (e + 1)"
    and "rne (x / 2 powi (max e (emin fmt) - (int (precision fmt) - 1))) = n"
  shows "fl fmt x = of_int n * 2 powi (max e (emin fmt) - (int (precision fmt) - 1))"
  unfolding fl_def by (rule round_nearest_eval [OF assms])

section \<open>Python floats\<close>

text \<open>
  A Python \<^verbatim>\<open>float\<close>: a finite binary64 number, an infinity or NaN. The two zeros are not
  told apart: they compare equal, and no operation of this program divides by a zero or
  takes the sign of one. \<open>float64\<close> is the result of an operation whose exact result is
  \<open>x\<close>: rounded to nearest, and an infinity when the rounded magnitude exceeds the largest
  finite number.
\<close>

datatype pyfloat = Fin real | PInf | NInf | NaN

definition float64 :: "real \<Rightarrow> pyfloat" where
  "float64 x =
     (let y = fl Binary64 x in
      if largest Binary64 < y then PInf
      else if y < - largest Binary64 then NInf
      else Fin y)"

fun py_add :: "pyfloat \<Rightarrow> pyfloat \<Rightarrow> pyfloat" where
  "py_add (Fin x) (Fin y) = float64 (x + y)"
| "py_add NaN b = NaN"
| "py_add a NaN = NaN"
| "py_add PInf NInf = NaN"
| "py_add NInf PInf = NaN"
| "py_add PInf b = PInf"
| "py_add a PInf = PInf"
| "py_add NInf b = NInf"
| "py_add a NInf = NInf"

fun py_sub :: "pyfloat \<Rightarrow> pyfloat \<Rightarrow> pyfloat" where
  "py_sub (Fin x) (Fin y) = float64 (x - y)"
| "py_sub NaN b = NaN"
| "py_sub a NaN = NaN"
| "py_sub PInf PInf = NaN"
| "py_sub NInf NInf = NaN"
| "py_sub PInf b = PInf"
| "py_sub a NInf = PInf"
| "py_sub NInf b = NInf"
| "py_sub a PInf = NInf"

datatype error = ValueError | ZeroDivisionError

text \<open>\<^verbatim>\<open>a / b\<close> raises \<^verbatim>\<open>ZeroDivisionError\<close> when \<open>b\<close> is zero, whatever \<open>a\<close> is.\<close>

fun py_truediv :: "pyfloat \<Rightarrow> pyfloat \<Rightarrow> error + pyfloat" where
  "py_truediv a (Fin y) =
     (if y = 0 then Inl ZeroDivisionError
      else Inr (case a of
                  Fin x \<Rightarrow> float64 (x / y)
                | PInf \<Rightarrow> (if 0 < y then PInf else NInf)
                | NInf \<Rightarrow> (if 0 < y then NInf else PInf)
                | NaN \<Rightarrow> NaN))"
| "py_truediv a NaN = Inr NaN"
| "py_truediv (Fin x) b = Inr (Fin 0)"
| "py_truediv a b = Inr NaN"

text \<open>\<^verbatim>\<open>a < b\<close>: false as soon as one side is NaN.\<close>

fun py_lt :: "pyfloat \<Rightarrow> pyfloat \<Rightarrow> bool" where
  "py_lt (Fin x) (Fin y) = (x < y)"
| "py_lt NaN b = False"
| "py_lt a NaN = False"
| "py_lt a NInf = False"
| "py_lt PInf b = False"
| "py_lt a b = True"

lemma largest64_ge: "2 ^ 53 \<le> largest Binary64"
  by (simp add: largest_def)

lemma float64_small: "\<bar>x\<bar> \<le> 9007199254740992 \<Longrightarrow> float64 x = Fin (fl Binary64 x)"
proof -
  assume a: "\<bar>x\<bar> \<le> 9007199254740992"
  have i: "fl Binary64 9007199254740992 = 9007199254740992"
    by (rule fl_numeral64) simp
  from a have "x \<le> 9007199254740992" "- 9007199254740992 \<le> x" by linarith+
  from fl_mono [OF this(1), of Binary64] fl_mono [OF this(2), of Binary64]
  have "fl Binary64 x \<le> 9007199254740992" "- 9007199254740992 \<le> fl Binary64 x"
    by (simp_all only: i fl_minus)
  with largest64_ge show ?thesis
    by (simp add: float64_def Let_def)
qed

section \<open>Bounded containers\<close>

text \<open>
  \<^verbatim>\<open>imu_buffer = deque(maxlen=2000)\<close> and \<^verbatim>\<open>synced_imu = deque(maxlen=100)\<close>.
  A deque is modelled as the list of its elements, front first. \<^verbatim>\<open>deque.append\<close> adds the
  element on the right and, when the deque then holds more than \<open>maxlen\<close> elements,
  discards one element from the left.
\<close>

definition IMU_MAXLEN :: nat where
  "IMU_MAXLEN = 2000"

definition SYNCED_MAXLEN :: nat where
  "SYNCED_MAXLEN = 100"

definition deque_append :: "nat \<Rightarrow> 'a list \<Rightarrow> 'a \<Rightarrow> 'a list" where
  "deque_append maxlen d x = (let d' = d @ [x] in if maxlen < length d' then tl d' else d')"

text \<open>Appending a sequence of elements one after the other, as a loop of appends does.\<close>

fun deque_extend :: "nat \<Rightarrow> 'a list \<Rightarrow> 'a list \<Rightarrow> 'a list" where
  "deque_extend maxlen d [] = d"
| "deque_extend maxlen d (x # xs) = deque_extend maxlen (deque_append maxlen d x) xs"

lemma length_deque_append:
  "length d \<le> maxlen \<Longrightarrow> length (deque_append maxlen d x) \<le> maxlen"
  by (simp add: deque_append_def Let_def)

lemma deque_append_not_full:
  "length d < maxlen \<Longrightarrow> deque_append maxlen d x = d @ [x]"
  by (simp add: deque_append_def Let_def)

lemma deque_append_full:
  "length d = maxlen \<Longrightarrow> 0 < maxlen \<Longrightarrow> deque_append maxlen d x = tl d @ [x]"
  by (cases d) (simp_all add: deque_append_def Let_def)

section \<open>Inertial samples\<close>

text \<open>
  A sample is the 7-tuple \<^verbatim>\<open>(ts_unix, *vals)\<close> of floats that \<^verbatim>\<open>imu_reader\<close> appends; the
  query handlers unpack it as \<^verbatim>\<open>ts, ax, ay, az, gx, gy, gz\<close>.
\<close>

record imu_sample =
  ts :: pyfloat
  ax :: pyfloat
  ay :: pyfloat
  az :: pyfloat
  gx :: pyfloat
  gy :: pyfloat
  gz :: pyfloat

text \<open>
  The tuple built from the timestamp and the parsed values, in their order. The loop builds
  it only from a record of seven parts, so \<open>vals\<close> has six elements.
\<close>

definition sample_of :: "pyfloat \<Rightarrow> pyfloat list \<Rightarrow> imu_sample" where
  "sample_of t vals =
     \<lparr>ts = t, ax = vals ! 0, ay = vals ! 1, az = vals ! 2,
      gx = vals ! 3, gy = vals ! 4, gz = vals ! 5\<rparr>"

section \<open>Reading one line of the inertial stream\<close>

text \<open>
  \<^verbatim>\<open>line = imu_ser.readline().decode('utf-8', errors='ignore').strip()\<close>,
  \<^verbatim>\<open>parts = line.split(' ')\<close>. The decoded text is a \<open>string\<close>; \<open>readline\<close> can raise
  (the port is gone), which the loop's \<^verbatim>\<open>except Exception\<close> catches.
\<close>

datatype serial_read = ReadError | ReadLine string

text \<open>The characters below 256 that \<^verbatim>\<open>str.strip()\<close> removes (those with \<^verbatim>\<open>isspace()\<close>).\<close>

definition py_isspace :: "char \<Rightarrow> bool" where
  "py_isspace c = (of_char c \<in> {9, 10, 11, 12, 13, 28, 29, 30, 31, 32, 133, 160 :: nat})"

definition py_strip :: "string \<Rightarrow> string" where
  "py_strip s = rev (dropWhile py_isspace (rev (dropWhile py_isspace s)))"

text \<open>
  \<^verbatim>\<open>str.split(' ')\<close> cuts at every single space: two spaces in a row give an empty part, and
  the empty string gives one empty part.
\<close>

fun py_split_space :: "string \<Rightarrow> string list" where
  "py_split_space [] = [[]]"
| "py_split_space (c # cs) =
     (if c = CHR '' '' then [] # py_split_space cs
      else (case py_split_space cs of
              [] \<Rightarrow> [[c]]
            | w # ws \<Rightarrow> (c # w) # ws))"

text \<open>
  \<^verbatim>\<open>float(s)\<close> is a builtin; it is a parameter \<open>pf\<close> of the model: \<open>pf s = None\<close> where
  \<^verbatim>\<open>float(s)\<close> raises \<^verbatim>\<open>ValueError\<close>, and otherwise the float it returns, which can be an
  infinity or NaN. \<^verbatim>\<open>tuple(map(float, parts[1:]))\<close> raises as soon as one part does not
  convert.
\<close>

fun map_float :: "(string \<Rightarrow> pyfloat option) \<Rightarrow> string list \<Rightarrow> pyfloat list option" where
  "map_float pf [] = Some []"
| "map_float pf (p # ps) =
     (case pf p of
        None \<Rightarrow> None
      | Some v \<Rightarrow> (case map_float pf ps of None \<Rightarrow> None | Some vs \<Rightarrow> Some (v # vs)))"

text \<open>
  The locals of \<^verbatim>\<open>imu_reader\<close> and the shared buffer it writes.
  \<open>unix_start_time\<close> is read once, before the loop; \<open>imu_start_us\<close> is \<open>None\<close> until a
  record has been parsed. The loop works on any state that has these three components
  (the whole program's state, below, has more).
\<close>

record imu_state =
  imu_start_us :: "pyfloat option"
  unix_start_time :: pyfloat
  imu_buffer :: "imu_sample list"


text \<open>
  One iteration of the \<^verbatim>\<open>while True\<close> loop. Every exception raised in the \<^verbatim>\<open>try\<close> block
  (by \<open>readline\<close>, or by \<open>float\<close>) is caught and printed, and the iteration ends with the
  state as it was: both conversions come before the assignment to \<open>imu_start_us\<close>. The
  arithmetic is that of Python floats: \<^verbatim>\<open>delta_sec = (ts_raw - imu_start_us) / 1_000_000.0\<close>,
  \<^verbatim>\<open>ts_unix = unix_start_time + delta_sec\<close>, each operation rounded.
\<close>

definition imu_iter ::
  "(string \<Rightarrow> pyfloat option) \<Rightarrow> serial_read \<Rightarrow> 'a imu_state_scheme \<Rightarrow> 'a imu_state_scheme" where
  "imu_iter pf r st =
     (case r of
        ReadError \<Rightarrow> st
      | ReadLine raw \<Rightarrow>
          (let parts = py_split_space (py_strip raw) in
           if length parts = 7 then
             (case pf (hd parts) of
                None \<Rightarrow> st
              | Some ts_raw \<Rightarrow>
                  (case map_float pf (tl parts) of
                     None \<Rightarrow> st
                   | Some vals \<Rightarrow>
                       (let start = (case imu_start_us st of None \<Rightarrow> ts_raw | Some s \<Rightarrow> s) in
                        case py_truediv (py_sub ts_raw start) (Fin 1000000) of
                          Inl e \<Rightarrow> st\<lparr>imu_start_us := Some start\<rparr>
                        | Inr delta_sec \<Rightarrow>
                            (let ts_unix = py_add (unix_start_time st) delta_sec
                             in st\<lparr>imu_start_us := Some start,
                                   imu_buffer :=
                                     deque_append IMU_MAXLEN (imu_buffer st)
                                       (sample_of ts_unix vals)\<rparr>))))
           else st))"

text \<open>The loop over the successive results of \<open>readline\<close>.\<close>

fun imu_reader_loop ::
  "(string \<Rightarrow> pyfloat option) \<Rightarrow> serial_read list \<Rightarrow> 'a imu_state_scheme \<Rightarrow> 'a imu_state_scheme" where
  "imu_reader_loop pf [] st = st"
| "imu_reader_loop pf (r # rs) st = imu_reader_loop pf rs (imu_iter pf r st)"

text \<open>
  What a line parses to: the raw device timestamp and the six values of a record of seven
  parts that all convert, \<open>None\<close> for every other line (and for a failed read).
\<close>

definition parse_record ::
  "(string \<Rightarrow> pyfloat option) \<Rightarrow> serial_read \<Rightarrow> (pyfloat \<times> pyfloat list) option" where
  "parse_record pf r =
     (case r of
        ReadError \<Rightarrow> None
      | ReadLine raw \<Rightarrow>
          (let parts = py_split_space (py_strip raw) in
           if length parts = 7 then
             (case pf (hd parts) of
                None \<Rightarrow> None
              | Some ts_raw \<Rightarrow>
                  (case map_float pf (tl parts) of
                     None \<Rightarrow> None
                   | Some vals \<Rightarrow> Some (ts_raw, vals)))
           else None))"

text \<open>
  The quotient of a float by the literal \<^verbatim>\<open>1_000_000.0\<close>, which is not zero: the division of
  the loop never raises.
\<close>

definition to_seconds :: "pyfloat \<Rightarrow> pyfloat" where
  "to_seconds a =
     (case a of Fin x \<Rightarrow> float64 (x / 1000000) | PInf \<Rightarrow> PInf | NInf \<Rightarrow> NInf | NaN \<Rightarrow> NaN)"

lemma py_truediv_million: "py_truediv a (Fin 1000000) = Inr (to_seconds a)"
  by (cases a) (simp_all add: to_seconds_def)

text \<open>
  A fragment of \<^verbatim>\<open>float\<close> for the examples: a non-empty string of decimal digits converts to
  the float nearest to the number it writes; the fragment rejects every other string, and
  the examples use none that \<^verbatim>\<open>float\<close> accepts.
\<close>

fun digits_value :: "nat \<Rightarrow> string \<Rightarrow> nat option" where
  "digits_value acc [] = Some acc"
| "digits_value acc (c # cs) =
     (if 48 \<le> (of_char c :: nat) \<and> (of_char c :: nat) \<le> 57
      then digits_value (10 * acc + (of_char c - 48)) cs
      else None)"

definition float_of_digits :: "string \<Rightarrow> pyfloat option" where
  "float_of_digits s =
     (if s = [] then None else map_option (\<lambda>n. float64 (real n)) (digits_value 0 s))"

section \<open>The ingestion loop: parsing and resilience\<close>

lemma map_float_length: "map_float pf ps = Some vs \<Longrightarrow> length vs = length ps"
  by (induction ps arbitrary: vs) (auto split: option.splits)

lemma map_float_None_iff: "map_float pf ps = None \<longleftrightarrow> (\<exists>p\<in>set ps. pf p = None)"
  by (induction ps) (auto split: option.splits)

lemma imu_iter_parse:
  "imu_iter pf r st =
     (case parse_record pf r of
        None \<Rightarrow> st
      | Some (ts_raw, vals) \<Rightarrow>
          (let start = (case imu_start_us st of None \<Rightarrow> ts_raw | Some s \<Rightarrow> s)
           in st\<lparr>imu_start_us := Some start,
                 imu_buffer := deque_append IMU_MAXLEN (imu_buffer st)
                   (sample_of (py_add (unix_start_time st) (to_seconds (py_sub ts_raw start)))
                      vals)\<rparr>))"
  by (simp add: imu_iter_def parse_record_def py_truediv_million Let_def
      del: py_truediv.simps split: serial_read.splits option.splits)

lemma parse_record_malformed:
  assumes "length (py_split_space (py_strip raw)) \<noteq> 7 \<or>
           (\<exists>p\<in>set (py_split_space (py_strip raw)). pf p = None)"
  shows "parse_record pf (ReadLine raw) = None"
proof -
  let ?parts = "py_split_space (py_strip raw)"
  show ?thesis
  proof (cases "length ?parts = 7")
    case False
    then show ?thesis by (simp add: parse_record_def Let_def)
  next
    case True
    with assms obtain p where p: "p \<in> set ?parts" "pf p = None" by auto
    from True have ne: "?parts \<noteq> []" by auto
    then have "?parts = hd ?parts # tl ?parts" by simp
    with p have "p = hd ?parts \<or> p \<in> set (tl ?parts)" by (metis set_ConsD)
    then show ?thesis
    proof
      assume "p = hd ?parts"
      with p show ?thesis by (simp add: parse_record_def Let_def)
    next
      assume "p \<in> set (tl ?parts)"
      with p have "map_float pf (tl ?parts) = None" by (auto simp: map_float_None_iff)
      then show ?thesis by (simp add: parse_record_def Let_def split: option.splits)
    qed
  qed
qed

lemma parse_record_wellformed:
  assumes "py_split_space (py_strip raw) = [p0, p1, p2, p3, p4, p5, p6]"
    and "pf p0 = Some t" and "pf p1 = Some a" and "pf p2 = Some b" and "pf p3 = Some c"
    and "pf p4 = Some d" and "pf p5 = Some e" and "pf p6 = Some f"
  shows "parse_record pf (ReadLine raw) = Some (t, [a, b, c, d, e, f])"
  using assms by (simp add: parse_record_def Let_def)

text \<open>
  C7 (ingestion resilience). A record is malformed when it does not split into seven parts
  or when one of its parts does not convert. One iteration on a malformed record returns
  (every exception is caught inside the loop body) with the state unchanged, so nothing is
  appended; the well-formed record that follows is parsed and appended: its six values in
  order, stamped \<open>unix_start_time + (t - start) / 1000000\<close> in float arithmetic.
\<close>

theorem imu_iter_resilient:
  assumes malformed: "length (py_split_space (py_strip raw)) \<noteq> 7 \<or>
           (\<exists>p\<in>set (py_split_space (py_strip raw)). pf p = None)"
    and parts: "py_split_space (py_strip raw') = [p0, p1, p2, p3, p4, p5, p6]"
    and conv: "pf p0 = Some t" "pf p1 = Some a" "pf p2 = Some b" "pf p3 = Some c"
      "pf p4 = Some d" "pf p5 = Some e" "pf p6 = Some f"
  shows "imu_iter pf (ReadLine raw) st = st \<and>
         imu_reader_loop pf [ReadLine raw, ReadLine raw'] st =
           st\<lparr>imu_start_us := Some (case imu_start_us st of None \<Rightarrow> t | Some s \<Rightarrow> s),
              imu_buffer := deque_append IMU_MAXLEN (imu_buffer st)
                \<lparr>ts = py_add (unix_start_time st)
                        (to_seconds
                           (py_sub t (case imu_start_us st of None \<Rightarrow> t | Some s \<Rightarrow> s))),
                 ax = a, ay = b, az = c, gx = d, gy = e, gz = f\<rparr>\<rparr>"
proof -
  have bad: "imu_iter pf (ReadLine raw) st = st"
    by (simp add: imu_iter_parse parse_record_malformed [OF malformed])
  have good: "parse_record pf (ReadLine raw') = Some (t, [a, b, c, d, e, f])"
    by (rule parse_record_wellformed [OF parts conv])
  have step: "imu_iter pf (ReadLine raw') st =
      st\<lparr>imu_start_us := Some (case imu_start_us st of None \<Rightarrow> t | Some s \<Rightarrow> s),
         imu_buffer := deque_append IMU_MAXLEN (imu_buffer st)
           \<lparr>ts = py_add (unix_start_time st)
                   (to_seconds
                      (py_sub t (case imu_start_us st of None \<Rightarrow> t | Some s \<Rightarrow> s))),
            ax = a, ay = b, az = c, gx = d, gy = e, gz = f\<rparr>\<rparr>"
    by (simp add: imu_iter_parse good Let_def sample_of_def)
  show ?thesis
    by (simp add: bad step)
qed

theorem imu_iter_resilient_witness:
  "imu_iter float_of_digits (ReadLine ''1 2 3 4 5'')
      \<lparr>imu_start_us = Some (Fin 1000000), unix_start_time = Fin 50, imu_buffer = []\<rparr>
    = \<lparr>imu_start_us = Some (Fin 1000000), unix_start_time = Fin 50, imu_buffer = []\<rparr> \<and>
   imu_reader_loop float_of_digits [ReadLine ''1 2 3 4 5'', ReadLine ''3000000 1 2 3 4 5 6'']
      \<lparr>imu_start_us = Some (Fin 1000000), unix_start_time = Fin 50, imu_buffer = []\<rparr>
    = \<lparr>imu_start_us = Some (Fin 1000000), unix_start_time = Fin 50,
       imu_buffer = [\<lparr>ts = Fin 52, ax = Fin 1, ay = Fin 2, az = Fin 3,
                      gx = Fin 4, gy = Fin 5, gz = Fin 6\<rparr>]\<rparr>"
  using imu_iter_resilient [of "''1 2 3 4 5''" float_of_digits "''3000000 1 2 3 4 5 6''"
      "''3000000''" "''1''" "''2''" "''3''" "''4''" "''5''" "''6''"
      "Fin 3000000" "Fin 1" "Fin 2" "Fin 3" "Fin 4" "Fin 5" "Fin 6"
      "\<lparr>imu_start_us = Some (Fin 1000000), unix_start_time = Fin 50, imu_buffer = []\<rparr>"]
  by (simp add: py_strip_def py_isspace_def float_of_digits_def deque_append_def IMU_MAXLEN_def
      to_seconds_def float64_small fl_numeral64 fl_one
      del: imu_reader_loop.simps)

section \<open>FIFO eviction\<close>

text \<open>
  C4 (ring buffer FIFO eviction). \<open>deque_append\<close> puts the sample at the back and, when the
  length would exceed the capacity, removes exactly the front element; samples with
  timestamps 1, 2, 3, 4 appended to an empty buffer of capacity 3 leave 2, 3, 4 in that
  order.
\<close>

theorem deque_append_fifo:
  "deque_append maxlen d x = (if length d < maxlen then d @ [x] else tl (d @ [x])) \<and>
   deque_extend 3 [] (map (\<lambda>t. sample_of (Fin t) vals) [1, 2, 3, 4]) =
     map (\<lambda>t. sample_of (Fin t) vals) [2, 3, 4]"
  by (auto simp: deque_append_def Let_def)

section \<open>Clock-domain translation\<close>











section \<open>Depth to distance\<close>

text \<open>
  \<^verbatim>\<open>
  def depth_to_distance(depth_map, min_dist=MIN_DIST, max_dist=MAX_DIST):
      depth_norm = (depth_map - depth_map.min()) / (depth_map.max() - depth_map.min() + 1e-8)
      return min_dist + (1.0 - depth_norm) * (max_dist - min_dist)
  \<close>
  The depth map is a numpy array; the arithmetic is elementwise and \<open>min\<close>, \<open>max\<close> range
  over all entries, so the array is modelled as the list of its entries. Its entries are
  finite numbers (reals): infinities and NaN are outside the model.

  Every floating-point operation returns the exact result rounded to the float format.
  The format is that of the array the depth model returns, which is not part of this
  program, so the rounding \<open>rnd\<close> is a parameter: \<open>fl Binary64\<close> for a float64 array and
  \<open>fl Binary32\<close> for a float32 array. All operations of one call round to the same
  format, as they do for a float64 array (the Python scalars are binary64 too) and for a
  float32 array when numpy converts the scalars to the array's type. The model is the
  code as long as no operation overflows; the only operation that can is \<open>max - min\<close>
  (lemma \<open>den_finite\<close> below), and the theorems about \<open>fl\<close> assume that it does not.
\<close>

definition fadd :: "(real \<Rightarrow> real) \<Rightarrow> real \<Rightarrow> real \<Rightarrow> real" where
  "fadd rnd a b = rnd (a + b)"

definition fsub :: "(real \<Rightarrow> real) \<Rightarrow> real \<Rightarrow> real \<Rightarrow> real" where
  "fsub rnd a b = rnd (a - b)"

definition fmul :: "(real \<Rightarrow> real) \<Rightarrow> real \<Rightarrow> real \<Rightarrow> real" where
  "fmul rnd a b = rnd (a * b)"

definition fdiv :: "(real \<Rightarrow> real) \<Rightarrow> real \<Rightarrow> real \<Rightarrow> real" where
  "fdiv rnd a b = rnd (a / b)"

definition MIN_DIST :: real where
  "MIN_DIST = 1"

definition MAX_DIST :: real where
  "MAX_DIST = 5"

text \<open>The literal \<^verbatim>\<open>1e-8\<close>: the float nearest to it.\<close>

definition eps :: "(real \<Rightarrow> real) \<Rightarrow> real" where
  "eps rnd = rnd (1 / 10 ^ 8)"

text \<open>\<^verbatim>\<open>ndarray.min()\<close> and \<^verbatim>\<open>ndarray.max()\<close> raise \<^verbatim>\<open>ValueError\<close> on an array without entries.\<close>

fun arr_min :: "real list \<Rightarrow> error + real" where
  "arr_min [] = Inl ValueError"
| "arr_min (x # xs) = Inr (fold min xs x)"

fun arr_max :: "real list \<Rightarrow> error + real" where
  "arr_max [] = Inl ValueError"
| "arr_max (x # xs) = Inr (fold max xs x)"

definition depth_to_distance ::
  "(real \<Rightarrow> real) \<Rightarrow> real list \<Rightarrow> real \<Rightarrow> real \<Rightarrow> error + real list" where
  "depth_to_distance rnd depth_map min_dist max_dist =
     (case arr_min depth_map of
        Inl e \<Rightarrow> Inl e
      | Inr lo \<Rightarrow>
          (case arr_max depth_map of
             Inl e \<Rightarrow> Inl e
           | Inr hi \<Rightarrow>
               (let den = fadd rnd (fsub rnd hi lo) (eps rnd);
                    depth_norm = map (\<lambda>x. fdiv rnd (fsub rnd x lo) den) depth_map
                in Inr (map (\<lambda>n. fadd rnd min_dist
                                  (fmul rnd (fsub rnd 1 n) (fsub rnd max_dist min_dist)))
                          depth_norm))))"

text \<open>
  What the theorems below assume of a rounding: it is monotone, it leaves a value that is
  already rounded as it is, the small integers 0, 1, 4 and 5 are floats, and \<^verbatim>\<open>1e-8\<close> does
  not round to zero. Both formats have these properties (\<open>rounding_fl\<close> below).
\<close>

definition rounding :: "(real \<Rightarrow> real) \<Rightarrow> bool" where
  "rounding rnd \<longleftrightarrow>
     (\<forall>x y. x \<le> y \<longrightarrow> rnd x \<le> rnd y) \<and> (\<forall>x. rnd (rnd x) = rnd x) \<and>
     rnd 0 = 0 \<and> rnd 1 = 1 \<and> rnd 4 = 4 \<and> rnd 5 = 5 \<and> 0 < rnd (1 / 10 ^ 8)"

subsection \<open>Bounds and monotonicity under any rounding\<close>

text \<open>The distance of one entry \<open>x\<close> of a map whose least and greatest entries are \<open>lo\<close> and \<open>hi\<close>.\<close>

definition entry_distance :: "(real \<Rightarrow> real) \<Rightarrow> real \<Rightarrow> real \<Rightarrow> real \<Rightarrow> real" where
  "entry_distance rnd lo hi x =
     fadd rnd MIN_DIST
       (fmul rnd (fsub rnd 1 (fdiv rnd (fsub rnd x lo) (fadd rnd (fsub rnd hi lo) (eps rnd))))
          (fsub rnd MAX_DIST MIN_DIST))"

lemma arr_min_Min: "m \<noteq> [] \<Longrightarrow> arr_min m = Inr (Min (set m))"
  by (cases m) (simp_all add: Min.set_eq_fold [symmetric])

lemma arr_max_Max: "m \<noteq> [] \<Longrightarrow> arr_max m = Inr (Max (set m))"
  by (cases m) (simp_all add: Max.set_eq_fold [symmetric])


lemma depth_to_distance_entries:
  "m \<noteq> [] \<Longrightarrow>
   depth_to_distance rnd m MIN_DIST MAX_DIST =
     Inr (map (entry_distance rnd (Min (set m)) (Max (set m))) m)"
  by (simp add: depth_to_distance_def arr_min_Min arr_max_Max Let_def entry_distance_def o_def)

lemma rounding_mono: "rounding rnd \<Longrightarrow> x \<le> y \<Longrightarrow> rnd x \<le> rnd y"
  by (simp add: rounding_def)

lemma rounding_idem: "rounding rnd \<Longrightarrow> rnd (rnd x) = rnd x"
  by (simp add: rounding_def)

lemma rounding_consts:
  "rounding rnd \<Longrightarrow> rnd 0 = 0" "rounding rnd \<Longrightarrow> rnd 1 = 1"
  "rounding rnd \<Longrightarrow> rnd 4 = 4" "rounding rnd \<Longrightarrow> rnd 5 = 5"
  "rounding rnd \<Longrightarrow> 0 < rnd (1 / 10 ^ 8)"
  by (simp_all add: rounding_def)

text \<open>The denominator is positive and not below the numerator.\<close>

lemma den_bounds:
  assumes r: "rounding rnd" and x: "lo \<le> x" "x \<le> hi"
  shows "0 < fadd rnd (fsub rnd hi lo) (eps rnd)"
    and "0 \<le> fsub rnd x lo"
    and "fsub rnd x lo \<le> fadd rnd (fsub rnd hi lo) (eps rnd)"
proof -
  let ?r = "rnd (hi - lo)"
  let ?e = "rnd (1 / 10 ^ 8)"
  have e0: "0 < ?e" using r by (rule rounding_consts)
  have "rnd 0 \<le> rnd (x - lo)" using x by (intro rounding_mono [OF r]) simp
  then show a0: "0 \<le> fsub rnd x lo" by (simp add: fsub_def rounding_consts [OF r])
  have ar: "rnd (x - lo) \<le> ?r" using x by (intro rounding_mono [OF r]) simp
  have r0: "0 \<le> ?r" using a0 ar by (simp add: fsub_def)
  have "rnd ?e \<le> rnd (?r + ?e)" using r0 by (intro rounding_mono [OF r]) simp
  then have "?e \<le> rnd (?r + ?e)" by (simp add: rounding_idem [OF r])
  with e0 show "0 < fadd rnd (fsub rnd hi lo) (eps rnd)"
    by (simp add: fadd_def fsub_def eps_def)
  have "rnd ?r \<le> rnd (?r + ?e)" using e0 by (intro rounding_mono [OF r]) simp
  then have "?r \<le> rnd (?r + ?e)" by (simp add: rounding_idem [OF r])
  with ar show "fsub rnd x lo \<le> fadd rnd (fsub rnd hi lo) (eps rnd)"
    by (simp add: fadd_def fsub_def eps_def)
qed

lemma entry_distance_bounds:
  assumes r: "rounding rnd" and x: "lo \<le> x" "x \<le> hi"
  shows "MIN_DIST \<le> entry_distance rnd lo hi x \<and> entry_distance rnd lo hi x \<le> MAX_DIST"
proof -
  let ?den = "fadd rnd (fsub rnd hi lo) (eps rnd)"
  let ?a = "fsub rnd x lo"
  let ?n = "rnd (?a / ?den)"
  let ?u = "rnd (1 - ?n)"
  let ?v = "rnd (?u * 4)"
  note d = den_bounds [OF r x]
  have q: "0 \<le> ?a / ?den" "?a / ?den \<le> 1" using d by simp_all
  have "rnd 0 \<le> ?n" "?n \<le> rnd 1" using q by (auto intro: rounding_mono [OF r])
  then have n: "0 \<le> ?n" "?n \<le> 1" by (simp_all add: rounding_consts [OF r])
  have "rnd 0 \<le> ?u" "?u \<le> rnd 1" using n by (auto intro: rounding_mono [OF r])
  then have u: "0 \<le> ?u" "?u \<le> 1" by (simp_all add: rounding_consts [OF r])
  have "rnd 0 \<le> ?v" "?v \<le> rnd 4" using u by (auto intro: rounding_mono [OF r])
  then have v: "0 \<le> ?v" "?v \<le> 4" by (simp_all add: rounding_consts [OF r])
  have "rnd 1 \<le> rnd (1 + ?v)" "rnd (1 + ?v) \<le> rnd 5" using v by (auto intro: rounding_mono [OF r])
  then have "1 \<le> rnd (1 + ?v)" "rnd (1 + ?v) \<le> 5" by (simp_all add: rounding_consts [OF r])
  then show ?thesis
    by (simp add: entry_distance_def fadd_def fsub_def fmul_def fdiv_def MIN_DIST_def MAX_DIST_def
        rounding_consts [OF r])
qed

lemma entry_distance_at_min:
  assumes r: "rounding rnd"
  shows "entry_distance rnd lo hi lo = MAX_DIST"
  by (simp add: entry_distance_def fadd_def fsub_def fmul_def fdiv_def MIN_DIST_def MAX_DIST_def
      rounding_consts [OF r])

lemma entry_distance_antimono:
  assumes r: "rounding rnd" and x: "lo \<le> x" "x \<le> y" "y \<le> hi"
  shows "entry_distance rnd lo hi y \<le> entry_distance rnd lo hi x"
proof -
  let ?den = "fadd rnd (fsub rnd hi lo) (eps rnd)"
  have d: "0 < ?den" using den_bounds(1) [OF r, of lo x hi] x by simp
  have "rnd (x - lo) \<le> rnd (y - lo)" using x by (intro rounding_mono [OF r]) simp
  then have "rnd (x - lo) / ?den \<le> rnd (y - lo) / ?den"
    using d by (simp add: divide_right_mono)
  then have "rnd (rnd (x - lo) / ?den) \<le> rnd (rnd (y - lo) / ?den)" by (rule rounding_mono [OF r])
  then have "rnd (1 - rnd (rnd (y - lo) / ?den)) \<le> rnd (1 - rnd (rnd (x - lo) / ?den))"
    by (intro rounding_mono [OF r]) simp
  then have "rnd (rnd (1 - rnd (rnd (y - lo) / ?den)) * 4) \<le> rnd (rnd (1 - rnd (rnd (x - lo) / ?den)) * 4)"
    by (intro rounding_mono [OF r]) simp
  then have "rnd (1 + rnd (rnd (1 - rnd (rnd (y - lo) / ?den)) * 4))
      \<le> rnd (1 + rnd (rnd (1 - rnd (rnd (x - lo) / ?den)) * 4))"
    by (intro rounding_mono [OF r]) simp
  then show ?thesis
    by (simp add: entry_distance_def fadd_def fsub_def fmul_def fdiv_def MIN_DIST_def MAX_DIST_def
        rounding_consts [OF r])
qed

text \<open>
  When the sum of the range and \<^verbatim>\<open>1e-8\<close> rounds to the range, the greatest entry is
  normalized to exactly 1 and its distance is exactly \<open>MIN_DIST\<close>.
\<close>

lemma entry_distance_at_max:
  assumes r: "rounding rnd"
    and absorb: "fadd rnd (fsub rnd hi lo) (eps rnd) = fsub rnd hi lo"
  shows "entry_distance rnd lo hi hi = MIN_DIST"
proof -
  have e0: "0 < rnd (1 / 10 ^ 8)" using r by (rule rounding_consts)
  have ne: "rnd (hi - lo) \<noteq> 0"
  proof
    assume z: "rnd (hi - lo) = 0"
    with absorb have "rnd (rnd (1 / 10 ^ 8)) = 0" by (simp add: fadd_def fsub_def eps_def)
    with e0 show False by (simp add: rounding_idem [OF r])
  qed
  have den: "rnd (rnd (hi - lo) + rnd (1 / 10 ^ 8)) = rnd (hi - lo)"
    using absorb by (simp add: fadd_def fsub_def eps_def)
  show ?thesis
    using ne den
    by (simp add: entry_distance_def fadd_def fsub_def fmul_def fdiv_def eps_def
        MIN_DIST_def MAX_DIST_def rounding_consts [OF r])
qed


subsection \<open>Both formats are roundings\<close>

lemma depth_b64_1: "fl Binary64 (1 / 100000000) = (3022314549036573 / 302231454903657293676544)"
  by (subst fl_eval [where e = "- 27" and n = 6044629098073146]) (simp_all add: rne_def power_int_minus)

lemma depth_b32_2: "fl Binary32 (1 / 100000000) = (11258999 / 1125899906842624)"
  by (subst fl_eval [where e = "- 27" and n = 11258999]) (simp_all add: rne_def power_int_minus)

lemma depth_b64_3: "fl Binary64 (302231457925971842713117 / 302231454903657293676544) = (1125899918101623 / 1125899906842624)"
  by (subst fl_eval [where e = "0" and n = 4503599672406492]) (simp_all add: rne_def power_int_minus)

lemma depth_b64_4: "fl Binary64 (1125899906842624 / 1125899918101623) = (9007199164669001 / 9007199254740992)"
  by (subst fl_eval [where e = "- 1" and n = 9007199164669001]) (simp_all add: rne_def power_int_minus)

lemma depth_b64_5: "fl Binary64 (90071991 / 9007199254740992) = (90071991 / 9007199254740992)"
  by (subst fl_eval [where e = "- 27" and n = 6044628994228224]) (simp_all add: rne_def power_int_minus)

lemma depth_b64_6: "fl Binary64 (90071991 / 2251799813685248) = (90071991 / 2251799813685248)"
  by (subst fl_eval [where e = "- 25" and n = 6044628994228224]) (simp_all add: rne_def power_int_minus)

lemma depth_b64_7: "fl Binary64 (2251799903757239 / 2251799813685248) = (2251799903757239 / 2251799813685248)"
  by (subst fl_eval [where e = "0" and n = 4503599807514478]) (simp_all add: rne_def power_int_minus)


lemma rounding_fl: "rounding (fl fmt)"
  unfolding rounding_def
  using fl_mono [of _ _ fmt] fl_idem [of fmt]
  by (cases fmt) (simp_all add: fl_zero fl_one fl_numeral depth_b64_1 depth_b32_2)

text \<open>
  The largest finite number absorbs 1, so the denominator is finite whenever the range
  is: within \<open>depth_to_distance\<close> only \<open>max - min\<close> can overflow. (The numerators are
  between 0 and the range, the quotients between 0 and 1, the products between 0 and 4
  and the sums between 1 and 5.)
\<close>

lemma largest_b64_1: "fl Binary64 179769313486231570814527423731704356798070567525844996598917476803157260780028538760589558632766878171540458953514382464234321326889464182768467546703537516986049910576551282076245490090389328944075868508455133942304583236903222948165808559332123348274797826204144723168738177180919299881250404026184124858369 = 179769313486231570814527423731704356798070567525844996598917476803157260780028538760589558632766878171540458953514382464234321326889464182768467546703537516986049910576551282076245490090389328944075868508455133942304583236903222948165808559332123348274797826204144723168738177180919299881250404026184124858368"
  by (subst fl_eval [where e = "1023" and n = 9007199254740991]) (simp_all add: rne_def power_int_minus)

lemma largest_b32_2: "fl Binary32 340282346638528859811704183484516925441 = 340282346638528859811704183484516925440"
  by (subst fl_eval [where e = "127" and n = 16777215]) (simp_all add: rne_def power_int_minus)

lemma fl_largest_succ: "fl fmt (largest fmt + 1) = largest fmt"
  by (cases fmt) (simp_all add: largest_def largest_b64_1 largest_b32_2)

lemma den_finite:
  assumes ne: "lo \<le> hi" and fin: "finite_in fmt (hi - lo)"
  shows "fadd (fl fmt) (fsub (fl fmt) hi lo) (eps (fl fmt)) \<le> largest fmt"
proof -
  note r = rounding_fl [of fmt]
  have "fl fmt (1 / 10 ^ 8) \<le> fl fmt 1" by (intro fl_mono) simp
  then have e1: "fl fmt (1 / 10 ^ 8) \<le> 1" by (simp add: fl_one)
  from fin have "fl fmt (hi - lo) \<le> largest fmt" by (simp add: finite_in_def)
  with e1 have "fl fmt (hi - lo) + fl fmt (1 / 10 ^ 8) \<le> largest fmt + 1" by simp
  from fl_mono [OF this, of fmt] show ?thesis
    by (simp add: fadd_def fsub_def eps_def fl_largest_succ)
qed

subsection \<open>Evaluation on the maps of the examples\<close>

lemma depth_to_distance_binary64_unit:
  "depth_to_distance (fl Binary64) [0, 1] MIN_DIST MAX_DIST = Inr [5, (2251799903757239 / 2251799813685248)]"
  by (simp add: depth_to_distance_def MIN_DIST_def MAX_DIST_def eps_def fadd_def fsub_def fmul_def fdiv_def
      fl_zero fl_one fl_numeral depth_b64_1 depth_b64_3 depth_b64_4 depth_b64_5 depth_b64_6 depth_b64_7)

lemma depth_b64_8: "fl Binary64 1152921504606846976 = 1152921504606846976"
  by (subst fl_eval [where e = "60" and n = 4503599627370496]) (simp_all add: rne_def power_int_minus)

lemma depth_b64_9: "fl Binary64 (348449143727040986586495601032445197567517 / 302231454903657293676544) = 1152921504606846976"
  by (subst fl_eval [where e = "60" and n = 4503599627370496]) (simp_all add: rne_def power_int_minus)

lemma depth_b64_10: "fl Binary64 (1 / 1152921504606846976) = (1 / 1152921504606846976)"
  by (subst fl_eval [where e = "- 60" and n = 4503599627370496]) (simp_all add: rne_def power_int_minus)

lemma depth_b64_11: "fl Binary64 (1152921504606846975 / 1152921504606846976) = 1"
  by (subst fl_eval [where e = "- 1" and n = 9007199254740992]) (simp_all add: rne_def power_int_minus)

lemma depth_to_distance_binary64_collapse:
  "depth_to_distance (fl Binary64) [0, 1, 1152921504606846976] MIN_DIST MAX_DIST = Inr [5, 5, 1]"
  by (simp add: depth_to_distance_def MIN_DIST_def MAX_DIST_def eps_def fadd_def fsub_def fmul_def fdiv_def
      fl_zero fl_one fl_numeral depth_b64_1 depth_b64_8 depth_b64_9 depth_b64_10 depth_b64_11)

lemma depth_b64_12: "fl Binary64 134217728 = 134217728"
  by (subst fl_eval [where e = "27" and n = 4503599627370496]) (simp_all add: rne_def power_int_minus)

lemma depth_b64_13: "fl Binary64 (40564819207303343870209051608605 / 302231454903657293676544) = 134217728"
  by (subst fl_eval [where e = "27" and n = 4503599627370496]) (simp_all add: rne_def power_int_minus)

lemma depth_to_distance_binary64_absorb:
  "depth_to_distance (fl Binary64) [0, 134217728] MIN_DIST MAX_DIST = Inr [5, 1]"
  by (simp add: depth_to_distance_def MIN_DIST_def MAX_DIST_def eps_def fadd_def fsub_def fmul_def fdiv_def
      fl_zero fl_one fl_numeral depth_b64_1 depth_b64_12 depth_b64_13)

lemma depth_b32_14: "fl Binary32 (1125899918101623 / 1125899906842624) = 1"
  by (subst fl_eval [where e = "0" and n = 8388608]) (simp_all add: rne_def power_int_minus)

lemma depth_to_distance_binary32_unit:
  "depth_to_distance (fl Binary32) [0, 1] MIN_DIST MAX_DIST = Inr [5, 1]"
  by (simp add: depth_to_distance_def MIN_DIST_def MAX_DIST_def eps_def fadd_def fsub_def fmul_def fdiv_def
      fl_zero fl_one fl_numeral depth_b32_2 depth_b32_14)

lemma depth_b32_15: "fl Binary32 (1 / 1073741824) = (1 / 1073741824)"
  by (subst fl_eval [where e = "- 30" and n = 8388608]) (simp_all add: rne_def power_int_minus)

lemma depth_b32_16: "fl Binary32 (1073741823 / 1073741824) = 1"
  by (subst fl_eval [where e = "- 1" and n = 16777216]) (simp_all add: rne_def power_int_minus)

lemma depth_to_distance_binary32_collapse:
  "depth_to_distance (fl Binary32) [0, (1 / 1073741824), 1] MIN_DIST MAX_DIST = Inr [5, 5, 1]"
  by (simp add: depth_to_distance_def MIN_DIST_def MAX_DIST_def eps_def fadd_def fsub_def fmul_def fdiv_def
      fl_zero fl_one fl_numeral depth_b32_2 depth_b32_14 depth_b32_15 depth_b32_16)

subsection \<open>Uniform maps\<close>



subsection \<open>Range of the distances\<close>

lemma Min_le_entry: "i < length m \<Longrightarrow> Min (set m) \<le> m ! i"
  by simp

lemma entry_le_Max: "i < length m \<Longrightarrow> m ! i \<le> Max (set m)"
  by simp

lemma Min_le_Max: "m \<noteq> [] \<Longrightarrow> Min (set m) \<le> Max (set m)"
  by simp

text \<open>
  C10 (distance bounds), as the code has it. For every non-empty depth map of finite
  numbers, in binary32 or binary64, whose range \<open>max - min\<close> does not overflow (no
  operation then overflows: the denominator is finite too), every distance lies in the
  closed interval from \<open>MIN_DIST\<close> to \<open>MAX_DIST\<close>; an entry holding the least raw value
  maps to exactly \<open>MAX_DIST\<close>, and an entry holding the greatest raw value maps to exactly
  \<open>MIN_DIST\<close> whenever the sum of the range and \<^verbatim>\<open>1e-8\<close> rounds to the range.
\<close>

theorem depth_to_distance_closed_range:
  assumes ne: "m \<noteq> []" and fin: "finite_in fmt (Max (set m) - Min (set m))"
  shows "\<exists>d. depth_to_distance (fl fmt) m MIN_DIST MAX_DIST = Inr d \<and> length d = length m \<and>
           fadd (fl fmt) (fsub (fl fmt) (Max (set m)) (Min (set m))) (eps (fl fmt)) \<le> largest fmt \<and>
           (\<forall>i<length m.
              MIN_DIST \<le> d ! i \<and> d ! i \<le> MAX_DIST \<and>
              (m ! i = Min (set m) \<longrightarrow> d ! i = MAX_DIST) \<and>
              (fadd (fl fmt) (fsub (fl fmt) (Max (set m)) (Min (set m))) (eps (fl fmt)) =
                 fsub (fl fmt) (Max (set m)) (Min (set m)) \<longrightarrow>
               m ! i = Max (set m) \<longrightarrow> d ! i = MIN_DIST))"
proof -
  note r = rounding_fl [of fmt]
  let ?d = "map (entry_distance (fl fmt) (Min (set m)) (Max (set m))) m"
  have "\<forall>i<length m. MIN_DIST \<le> ?d ! i \<and> ?d ! i \<le> MAX_DIST \<and>
          (m ! i = Min (set m) \<longrightarrow> ?d ! i = MAX_DIST) \<and>
          (fadd (fl fmt) (fsub (fl fmt) (Max (set m)) (Min (set m))) (eps (fl fmt)) =
                 fsub (fl fmt) (Max (set m)) (Min (set m)) \<longrightarrow>
               m ! i = Max (set m) \<longrightarrow> ?d ! i = MIN_DIST)"
    using entry_distance_bounds [OF r Min_le_entry entry_le_Max]
    by (auto simp: entry_distance_at_min [OF r] entry_distance_at_max [OF r])
  with den_finite [OF Min_le_Max [OF ne] fin] show ?thesis
    using ne by (simp add: depth_to_distance_entries)
qed

theorem depth_to_distance_closed_range_witness:
  "[0, 134217728] \<noteq> ([] :: real list) \<and>
   finite_in Binary64 (Max (set [0, 134217728]) - Min (set [0, 134217728])) \<and>
   (\<exists>d. depth_to_distance (fl Binary64) [0, 134217728] MIN_DIST MAX_DIST = Inr d \<and>
        length d = 2 \<and> d ! 0 = MAX_DIST \<and> MIN_DIST \<le> d ! 1 \<and> d ! 1 \<le> MAX_DIST)"
proof -
  have ne: "[0, 134217728] \<noteq> ([] :: real list)" by simp
  have fin: "finite_in Binary64 (Max (set [0, 134217728]) - Min (set [0, 134217728]))"
    using largest64_ge by (simp add: finite_in_def depth_b64_12)
  from depth_to_distance_closed_range [OF ne fin]
  obtain d where d: "depth_to_distance (fl Binary64) [0, 134217728] MIN_DIST MAX_DIST = Inr d"
    "length d = length [0, 134217728 :: real]"
    "\<forall>i<length [0, 134217728 :: real]. MIN_DIST \<le> d ! i \<and> d ! i \<le> MAX_DIST \<and>
        ([0, 134217728 :: real] ! i = Min (set [0, 134217728]) \<longrightarrow> d ! i = MAX_DIST)"
    by blast
  from d(3) have "d ! 0 = MAX_DIST" by simp
  moreover from d(3) have "MIN_DIST \<le> d ! 1 \<and> d ! 1 \<le> MAX_DIST" by simp
  ultimately show ?thesis using d(1,2) ne fin by auto
qed

text \<open>
  The lower bound is attained: the greatest raw value of the map \<open>[0, 1]\<close> in binary32 and
  of the map \<open>[0, 2^27]\<close> in binary64 maps to exactly \<open>MIN_DIST\<close>.
\<close>

theorem depth_to_distance_max_counterexample:
  "depth_to_distance (fl Binary32) [0, 1] MIN_DIST MAX_DIST = Inr [5, MIN_DIST] \<and>
   depth_to_distance (fl Binary64) [0, 134217728] MIN_DIST MAX_DIST = Inr [5, MIN_DIST]"
  using depth_to_distance_binary32_unit depth_to_distance_binary64_absorb
  by (simp add: MIN_DIST_def)

subsection \<open>The unit range and monotonicity\<close>

text \<open>
  C6 (normalization range), as the code has it. The map \<open>[0, 1]\<close> gives the distances
  \<open>[5, 1]\<close> in binary32 and \<open>[5, 1.0000000399999993]\<close> in binary64. For every non-empty
  depth map of finite numbers, in either format, whose range \<open>max - min\<close> does not
  overflow, a greater or equal raw value maps to a smaller or equal distance.
\<close>

theorem depth_to_distance_monotone:
  assumes ne: "m \<noteq> []" and fin: "finite_in fmt (Max (set m) - Min (set m))"
  shows "depth_to_distance (fl Binary32) [0, 1] MIN_DIST MAX_DIST = Inr [5, 1] \<and>
         depth_to_distance (fl Binary64) [0, 1] MIN_DIST MAX_DIST =
           Inr [5, 2251799903757239 / 2251799813685248] \<and>
         (\<exists>d. depth_to_distance (fl fmt) m MIN_DIST MAX_DIST = Inr d \<and> length d = length m \<and>
            fadd (fl fmt) (fsub (fl fmt) (Max (set m)) (Min (set m))) (eps (fl fmt)) \<le> largest fmt \<and>
            (\<forall>i<length m. \<forall>j<length m. m ! i \<le> m ! j \<longrightarrow> d ! j \<le> d ! i))"
proof (intro conjI)
  note r = rounding_fl [of fmt]
  let ?d = "map (entry_distance (fl fmt) (Min (set m)) (Max (set m))) m"
  have "\<forall>i<length m. \<forall>j<length m. m ! i \<le> m ! j \<longrightarrow> ?d ! j \<le> ?d ! i"
    using entry_distance_antimono [OF r Min_le_entry _ entry_le_Max] by simp
  with den_finite [OF Min_le_Max [OF ne] fin]
  show "\<exists>d. depth_to_distance (fl fmt) m MIN_DIST MAX_DIST = Inr d \<and> length d = length m \<and>
            fadd (fl fmt) (fsub (fl fmt) (Max (set m)) (Min (set m))) (eps (fl fmt)) \<le> largest fmt \<and>
            (\<forall>i<length m. \<forall>j<length m. m ! i \<le> m ! j \<longrightarrow> d ! j \<le> d ! i)"
    using ne by (simp add: depth_to_distance_entries)
qed (rule depth_to_distance_binary32_unit depth_to_distance_binary64_unit)+

theorem depth_to_distance_monotone_witness:
  "[0, 1] \<noteq> ([] :: real list) \<and>
   finite_in Binary64 (Max (set [0, 1]) - Min (set [0, 1])) \<and>
   (\<exists>d. depth_to_distance (fl Binary64) [0, 1] MIN_DIST MAX_DIST = Inr d \<and> length d = 2 \<and>
        d ! 1 \<le> d ! 0)"
proof -
  have ne: "[0, 1] \<noteq> ([] :: real list)" by simp
  have fin: "finite_in Binary64 (Max (set [0, 1]) - Min (set [0, 1]))"
    using largest64_ge by (simp add: finite_in_def fl_one)
  from depth_to_distance_monotone [OF ne fin]
  obtain d where d: "depth_to_distance (fl Binary64) [0, 1] MIN_DIST MAX_DIST = Inr d"
    "length d = length [0, 1 :: real]"
    "\<forall>i<length [0, 1 :: real]. \<forall>j<length [0, 1 :: real].
        [0, 1 :: real] ! i \<le> [0, 1] ! j \<longrightarrow> d ! j \<le> d ! i"
    by blast
  from d(3) have "d ! 1 \<le> d ! 0" by (simp add: All_less_Suc numeral_2_eq_2)
  then show ?thesis using d(1,2) ne fin by auto
qed

text \<open>
  In binary64 the second distance of the map \<open>[0, 1]\<close> is not 1. In neither format are
  the distances strictly decreasing: the two least raw values of the maps \<open>[0, 1, 2^60]\<close>
  (binary64) and \<open>[0, 2^-30, 1]\<close> (binary32) both map to 5.
\<close>

theorem depth_to_distance_unit_counterexample:
  "depth_to_distance (fl Binary64) [0, 1] MIN_DIST MAX_DIST =
     Inr [5, 2251799903757239 / 2251799813685248] \<and>
   depth_to_distance (fl Binary64) [0, 1] MIN_DIST MAX_DIST \<noteq> Inr [5, 1] \<and>
   depth_to_distance (fl Binary64) [0, 1, 2 ^ 60] MIN_DIST MAX_DIST = Inr [5, 5, 1] \<and>
   depth_to_distance (fl Binary32) [0, 1 / 2 ^ 30, 1] MIN_DIST MAX_DIST = Inr [5, 5, 1]"
  using depth_to_distance_binary64_unit depth_to_distance_binary64_collapse
    depth_to_distance_binary32_collapse
  by simp

section \<open>The frame loop\<close>

text \<open>
  The program's globals, added to the state of the reader thread: the history of bundles
  \<^verbatim>\<open>synced_imu = deque(maxlen=100)\<close> and the variables the request handlers read.
\<close>

record state = imu_state +
  synced_imu :: "(pyfloat \<times> imu_sample list) list"
  latest_rgb :: "string option"
  latest_depth_float :: "real list option"
  latest_imu_buffer :: "imu_sample list"
  last_imu_ts :: pyfloat

text \<open>The globals as the module initialises them; \<open>t0\<close> is the wall clock when the reader starts.\<close>

definition init_state :: "pyfloat \<Rightarrow> state" where
  "init_state t0 =
     \<lparr>imu_start_us = None, unix_start_time = t0, imu_buffer = [],
      synced_imu = [], latest_rgb = None, latest_depth_float = None,
      latest_imu_buffer = [], last_imu_ts = Fin 0\<rparr>"

text \<open>
  What one iteration of \<^verbatim>\<open>camera_loop\<close> receives from outside the program, when
  \<^verbatim>\<open>cap.read()\<close> returns a frame: the bytes of its JPEG encoding, the depth map that
  \<^verbatim>\<open>estimate_depth\<close> returns for it, and the value of \<^verbatim>\<open>time.time()\<close> read after them.
\<close>

record cam_frame =
  frame_jpeg :: string
  frame_depth :: "real list"
  frame_time :: pyfloat

datatype cap_read = NoFrame | Frame cam_frame

text \<open>
  The condition of the comprehension, \<^verbatim>\<open>0 < timestamp - sample[0] < 1.0\<close>: the difference
  is computed once, in binary64, and compared with both bounds.
\<close>

definition in_window :: "pyfloat \<Rightarrow> imu_sample \<Rightarrow> bool" where
  "in_window timestamp sample \<longleftrightarrow>
     py_lt (Fin 0) (py_sub timestamp (ts sample)) \<and> py_lt (py_sub timestamp (ts sample)) (Fin 1)"

text \<open>
  The body of the loop for a frame, as the list of the states after each assignment to a
  global, in program order: \<open>latest_depth_float\<close>, \<open>latest_rgb\<close>, \<open>latest_imu_buffer\<close>,
  the append to \<open>synced_imu\<close>, \<open>last_imu_ts\<close>. \<open>depth_to_distance\<close> comes first and its
  exception, which nothing catches, ends the thread before any assignment. The snapshot
  \<^verbatim>\<open>list(imu_buffer)\<close> is the buffer of the state in which it is taken.
\<close>

definition camera_body_states :: "(real \<Rightarrow> real) \<Rightarrow> cam_frame \<Rightarrow> state \<Rightarrow> error + state list" where
  "camera_body_states rnd f st =
     (case depth_to_distance rnd (frame_depth f) MIN_DIST MAX_DIST of
        Inl e \<Rightarrow> Inl e
      | Inr dist' \<Rightarrow>
          (let s1 = st\<lparr>latest_depth_float := Some dist'\<rparr>;
               s2 = s1\<lparr>latest_rgb := Some (frame_jpeg f)\<rparr>;
               timestamp = frame_time f;
               imu_list = imu_buffer s2;
               synced = filter (in_window timestamp) imu_list;
               s3 = s2\<lparr>latest_imu_buffer := synced\<rparr>;
               s4 = s3\<lparr>synced_imu := deque_append SYNCED_MAXLEN (synced_imu s3) (timestamp, synced)\<rparr>;
               s5 = s4\<lparr>last_imu_ts := timestamp\<rparr>
           in Inr [s1, s2, s3, s4, s5]))"

text \<open>One iteration: without a frame the loop continues with nothing changed.\<close>

definition camera_iter :: "(real \<Rightarrow> real) \<Rightarrow> cap_read \<Rightarrow> state \<Rightarrow> error + state" where
  "camera_iter rnd c st =
     (case c of
        NoFrame \<Rightarrow> Inr st
      | Frame f \<Rightarrow>
          (case camera_body_states rnd f st of
             Inl e \<Rightarrow> Inl e
           | Inr ss \<Rightarrow> Inr (last ss)))"

text \<open>
  The states the program reaches: the two loops run in parallel, so from any state either
  loop takes its next step. The states between two assignments of the frame loop's body
  are states of the program too (the reader thread and the request handlers run there).
\<close>

inductive reachable :: "(string \<Rightarrow> pyfloat option) \<Rightarrow> (real \<Rightarrow> real) \<Rightarrow> pyfloat \<Rightarrow> state \<Rightarrow> bool"
  for pf :: "string \<Rightarrow> pyfloat option" and rnd :: "real \<Rightarrow> real" and t0 :: pyfloat where
  reach_init: "reachable pf rnd t0 (init_state t0)"
| reach_imu: "reachable pf rnd t0 st \<Longrightarrow> reachable pf rnd t0 (imu_iter pf r st)"
| reach_cam: "reachable pf rnd t0 st \<Longrightarrow> camera_body_states rnd f st = Inr ss \<Longrightarrow> s \<in> set ss \<Longrightarrow>
     reachable pf rnd t0 s"

section \<open>The request handlers\<close>

text \<open>
  What the three handlers that serve the frame loop's results read: \<open>latest_rgb\<close>
  (\<^verbatim>\<open>/frame_rgb\<close>), \<open>latest_depth_float\<close> (\<^verbatim>\<open>/frame_depth_raw\<close>) and the last element of
  \<open>synced_imu\<close> (\<^verbatim>\<open>/imu_buffer\<close>).
\<close>

definition published :: "state \<Rightarrow> string option \<times> real list option \<times> (pyfloat \<times> imu_sample list) option" where
  "published st =
     (latest_rgb st, latest_depth_float st,
      if synced_imu st = [] then None else Some (last (synced_imu st)))"

text \<open>
  The value that \<^verbatim>\<open>jsonify\<close> receives: a dict is the list of its items in the order of
  the dict literal, a number is the float it holds.
\<close>

datatype json = JNull | JNumber pyfloat | JArray "json list" | JObject "(string \<times> json) list"

text \<open>The member of an object under a key.\<close>

fun json_get :: "json \<Rightarrow> string \<Rightarrow> json option" where
  "json_get (JObject members) k = map_of members k"
| "json_get j k = None"

definition sample_json :: "imu_sample \<Rightarrow> json" where
  "sample_json s =
     JObject [(''ts'', JNumber (ts s)),
              (''ax'', JNumber (ax s)), (''ay'', JNumber (ay s)), (''az'', JNumber (az s)),
              (''gx'', JNumber (gx s)), (''gy'', JNumber (gy s)), (''gz'', JNumber (gz s))]"

definition imu_buffer_stream :: "state \<Rightarrow> json" where
  "imu_buffer_stream st =
     (if synced_imu st \<noteq> [] then
        (let (current_ts, imu_data) = last (synced_imu st);
             imu_list = map sample_json imu_data
         in JObject [(''timestamp'', JNumber current_ts), (''imu'', JArray imu_list)])
      else JObject [(''timestamp'', JNull), (''imu'', JArray [])])"

section \<open>Windowing\<close>

lemma camera_body_states_ok:
  assumes "depth_to_distance rnd (frame_depth f) MIN_DIST MAX_DIST = Inr d"
  shows "camera_body_states rnd f st =
     Inr [st\<lparr>latest_depth_float := Some d\<rparr>,
          st\<lparr>latest_depth_float := Some d, latest_rgb := Some (frame_jpeg f)\<rparr>,
          st\<lparr>latest_depth_float := Some d, latest_rgb := Some (frame_jpeg f),
             latest_imu_buffer := filter (in_window (frame_time f)) (imu_buffer st)\<rparr>,
          st\<lparr>latest_depth_float := Some d, latest_rgb := Some (frame_jpeg f),
             latest_imu_buffer := filter (in_window (frame_time f)) (imu_buffer st),
             synced_imu := deque_append SYNCED_MAXLEN (synced_imu st)
               (frame_time f, filter (in_window (frame_time f)) (imu_buffer st))\<rparr>,
          st\<lparr>latest_depth_float := Some d, latest_rgb := Some (frame_jpeg f),
             latest_imu_buffer := filter (in_window (frame_time f)) (imu_buffer st),
             synced_imu := deque_append SYNCED_MAXLEN (synced_imu st)
               (frame_time f, filter (in_window (frame_time f)) (imu_buffer st)),
             last_imu_ts := frame_time f\<rparr>]"
  using assms by (simp add: camera_body_states_def Let_def)

lemma depth_to_distance_returns:
  "m \<noteq> [] \<Longrightarrow> \<exists>d. depth_to_distance rnd m a b = Inr d"
  by (cases m) (simp_all add: depth_to_distance_def Let_def)

lemma deque_append_last: "0 < maxlen \<Longrightarrow> deque_append maxlen d x \<noteq> [] \<and> last (deque_append maxlen d x) = x"
  by (cases d) (auto simp: deque_append_def Let_def)

lemma depth_to_distance_single: "depth_to_distance (fl Binary64) [2] MIN_DIST MAX_DIST = Inr [5]"
  using depth_to_distance_entries [of "[2]" "fl Binary64"]
  by (simp add: entry_distance_at_min [OF rounding_fl] MAX_DIST_def)

lemma depth_to_distance_pair: "depth_to_distance (fl Binary64) [3, 3] MIN_DIST MAX_DIST = Inr [5, 5]"
  using depth_to_distance_entries [of "[3, 3]" "fl Binary64"]
  by (simp add: entry_distance_at_min [OF rounding_fl] MAX_DIST_def)

subsection \<open>The window in binary64 and over the reals\<close>







lemma edge_b64_4: "fl Binary64 (1 / 2) = (1 / 2)"
  by (subst fl_eval [where e = "- 1" and n = 4503599627370496]) (simp_all add: rne_def power_int_minus)



subsection \<open>The example at frame time 100\<close>













section \<open>Bounded memory\<close>

lemma length_deque_extend:
  "length d \<le> maxlen \<Longrightarrow> length (deque_extend maxlen d xs) \<le> maxlen"
  by (induction xs arbitrary: d) (simp_all add: length_deque_append)

lemma imu_iter_bounded:
  "length (imu_buffer st) \<le> IMU_MAXLEN \<Longrightarrow> length (imu_buffer (imu_iter pf r st)) \<le> IMU_MAXLEN"
  by (simp add: imu_iter_parse Let_def length_deque_append split: option.splits prod.splits)

lemma imu_iter_synced: "synced_imu (imu_iter pf r st) = synced_imu st"
  by (simp add: imu_iter_parse Let_def split: option.splits prod.splits)

lemma camera_body_bounded:
  assumes "camera_body_states rnd f st = Inr ss" and "s \<in> set ss"
    and "length (imu_buffer st) \<le> IMU_MAXLEN" and "length (synced_imu st) \<le> SYNCED_MAXLEN"
  shows "length (imu_buffer s) \<le> IMU_MAXLEN \<and> length (synced_imu s) \<le> SYNCED_MAXLEN"
proof -
  from assms(1) obtain d where
    d: "depth_to_distance rnd (frame_depth f) MIN_DIST MAX_DIST = Inr d"
    by (auto simp: camera_body_states_def split: sum.splits)
  from assms show ?thesis
    unfolding camera_body_states_ok [OF d]
    by (auto simp: length_deque_append)
qed

text \<open>
  C8 (bounded memory). In every reachable state the inertial buffer holds at most
  \<open>IMU_MAXLEN = 2000\<close> samples and the bundle history at most \<open>SYNCED_MAXLEN = 100\<close>
  bundles: both start empty and both are only ever changed by \<open>deque_append\<close> with that
  capacity.
\<close>

theorem containers_bounded:
  assumes "reachable pf rnd t0 st"
  shows "length (imu_buffer st) \<le> IMU_MAXLEN \<and> length (synced_imu st) \<le> SYNCED_MAXLEN \<and>
         IMU_MAXLEN = 2000 \<and> SYNCED_MAXLEN = 100"
proof -
  from assms have "length (imu_buffer st) \<le> IMU_MAXLEN \<and> length (synced_imu st) \<le> SYNCED_MAXLEN"
  proof (induction rule: reachable.induct)
    case reach_init
    show ?case by (simp add: init_state_def)
  next
    case (reach_imu st r)
    then show ?case by (simp add: imu_iter_bounded imu_iter_synced)
  next
    case (reach_cam st f ss s)
    then show ?case using camera_body_bounded by blast
  qed
  then show ?thesis by (simp add: IMU_MAXLEN_def SYNCED_MAXLEN_def)
qed

theorem containers_bounded_witness:
  "reachable float_of_digits (fl Binary64) (Fin 1000)
     (imu_iter float_of_digits (ReadLine ''5 1 2 3 4 5 6'') (init_state (Fin 1000))) \<and>
   length (imu_buffer (imu_iter float_of_digits (ReadLine ''5 1 2 3 4 5 6'') (init_state (Fin 1000)))) = 1 \<and>
   length (imu_buffer (imu_iter float_of_digits (ReadLine ''5 1 2 3 4 5 6'') (init_state (Fin 1000))))
     \<le> IMU_MAXLEN"
proof -
  have r: "reachable float_of_digits (fl Binary64) (Fin 1000)
     (imu_iter float_of_digits (ReadLine ''5 1 2 3 4 5 6'') (init_state (Fin 1000)))"
    by (intro reach_imu reach_init)
  have "length (imu_buffer (imu_iter float_of_digits (ReadLine ''5 1 2 3 4 5 6'') (init_state (Fin 1000)))) = 1"
    by (simp add: imu_iter_parse parse_record_def init_state_def py_strip_def py_isspace_def
        float_of_digits_def deque_append_def IMU_MAXLEN_def Let_def)
  with r containers_bounded [OF r] show ?thesis by simp
qed

section \<open>Publication of the frame loop's results\<close>

text \<open>
  C2 (publication), as the code has it. The frame loop replaces the distance map, the
  encoded frame and the latest bundle by three separate assignments, in this order, with
  the encoding, the clock read and the snapshot under \<open>imu_lock\<close> between them. The views
  a request handler can get during one cycle are, in order: the new distance map with the
  previous frame and bundle; the new distance map and frame with the previous bundle; the
  new distance map, frame and bundle. Only the view after the append to the history, which
  is also the view when the cycle is complete, holds the results of one cycle.
\<close>

theorem camera_publish_steps:
  assumes ne: "frame_depth f \<noteq> []"
  shows "\<exists>d ss. depth_to_distance rnd (frame_depth f) MIN_DIST MAX_DIST = Inr d \<and>
           camera_body_states rnd f st = Inr ss \<and>
           camera_iter rnd (Frame f) st = Inr (last ss) \<and>
           map published ss =
             (let prior_bundle = snd (snd (published st));
                  bundle = Some (frame_time f, filter (in_window (frame_time f)) (imu_buffer st))
              in [(latest_rgb st, Some d, prior_bundle),
                  (Some (frame_jpeg f), Some d, prior_bundle),
                  (Some (frame_jpeg f), Some d, prior_bundle),
                  (Some (frame_jpeg f), Some d, bundle),
                  (Some (frame_jpeg f), Some d, bundle)])"
proof -
  from depth_to_distance_returns [OF ne] obtain d where
    d: "depth_to_distance rnd (frame_depth f) MIN_DIST MAX_DIST = Inr d" by blast
  show ?thesis
    using deque_append_last [of SYNCED_MAXLEN "synced_imu st"]
    by (simp add: d camera_iter_def camera_body_states_ok [OF d] published_def Let_def
        SYNCED_MAXLEN_def)
qed

theorem camera_publish_steps_witness:
  "frame_depth \<lparr>frame_jpeg = ''B'', frame_depth = [3, 3], frame_time = Fin 11\<rparr> \<noteq> [] \<and>
   (\<exists>ss. camera_body_states (fl Binary64)
            \<lparr>frame_jpeg = ''B'', frame_depth = [3, 3], frame_time = Fin 11\<rparr>
            (init_state (Fin 0)) = Inr ss \<and>
          map published ss =
            [(None, Some [5, 5], None), (Some ''B'', Some [5, 5], None),
             (Some ''B'', Some [5, 5], None), (Some ''B'', Some [5, 5], Some (Fin 11, [])),
             (Some ''B'', Some [5, 5], Some (Fin 11, []))])"
proof -
  let ?f = "\<lparr>frame_jpeg = ''B'', frame_depth = [3, 3], frame_time = Fin 11\<rparr>"
  have ne: "frame_depth ?f \<noteq> []" by simp
  have d: "depth_to_distance (fl Binary64) (frame_depth ?f) MIN_DIST MAX_DIST = Inr [5, 5]"
    by (simp add: depth_to_distance_pair)
  from camera_publish_steps [OF ne, of "fl Binary64" "init_state (Fin 0)"] d ne show ?thesis
    by (auto simp: published_def init_state_def Let_def)
qed

text \<open>
  The publication is not one atomic replacement: during the second of two cycles a handler
  can read the first cycle's frame \<open>''A''\<close> with the second cycle's distance map, and then
  the second cycle's frame \<open>''B''\<close> with the first cycle's bundle (timestamp 10).
\<close>

theorem camera_publish_mixture_counterexample:
  "camera_iter (fl Binary64) (Frame \<lparr>frame_jpeg = ''A'', frame_depth = [2], frame_time = Fin 10\<rparr>)
      (init_state (Fin 0))
    = Inr \<lparr>imu_start_us = None, unix_start_time = Fin 0, imu_buffer = [],
           synced_imu = [(Fin 10, [])], latest_rgb = Some ''A'', latest_depth_float = Some [5],
           latest_imu_buffer = [], last_imu_ts = Fin 10\<rparr> \<and>
   map_sum id (map published)
     (camera_body_states (fl Binary64)
        \<lparr>frame_jpeg = ''B'', frame_depth = [3, 3], frame_time = Fin 11\<rparr>
        \<lparr>imu_start_us = None, unix_start_time = Fin 0, imu_buffer = [],
         synced_imu = [(Fin 10, [])], latest_rgb = Some ''A'', latest_depth_float = Some [5],
         latest_imu_buffer = [], last_imu_ts = Fin 10\<rparr>)
    = Inr [(Some ''A'', Some [5, 5], Some (Fin 10, [])),
           (Some ''B'', Some [5, 5], Some (Fin 10, [])),
           (Some ''B'', Some [5, 5], Some (Fin 10, [])),
           (Some ''B'', Some [5, 5], Some (Fin 11, [])),
           (Some ''B'', Some [5, 5], Some (Fin 11, []))]"
  by (simp add: camera_iter_def camera_body_states_def depth_to_distance_single
      depth_to_distance_pair init_state_def published_def deque_append_def SYNCED_MAXLEN_def
      Let_def)

section \<open>The latest-bundle query\<close>

text \<open>
  C9 (latest-bundle query), as the code has it. While the history is empty (no bundle has
  been published) \<^verbatim>\<open>/imu_buffer\<close> returns the object with \<open>timestamp\<close> null and \<open>imu\<close> the
  empty list; otherwise it returns the last bundle of the history: \<open>timestamp\<close> is its
  frame timestamp and \<open>imu\<close> lists its windowed samples, each an object with the members
  \<open>ts\<close>, \<open>ax\<close>, \<open>ay\<close>, \<open>az\<close>, \<open>gx\<close>, \<open>gy\<close>, \<open>gz\<close>. After a completed cycle of the frame
  loop that is the cycle's timestamp and the samples of its window.
\<close>

theorem imu_buffer_stream_latest:
  assumes ne: "frame_depth f \<noteq> []"
  shows "imu_buffer_stream (init_state t0) = JObject [(''timestamp'', JNull), (''imu'', JArray [])] \<and>
   imu_buffer_stream st =
     (if synced_imu st = [] then JObject [(''timestamp'', JNull), (''imu'', JArray [])]
      else JObject [(''timestamp'', JNumber (fst (last (synced_imu st)))),
                    (''imu'', JArray (map sample_json (snd (last (synced_imu st)))))]) \<and>
   (\<exists>st'. camera_iter rnd (Frame f) st = Inr st' \<and>
      imu_buffer_stream st' =
        JObject [(''timestamp'', JNumber (frame_time f)),
                 (''imu'', JArray (map sample_json
                    (filter (in_window (frame_time f)) (imu_buffer st))))]) \<and>
   map (json_get (sample_json s)) [''ts'', ''ax'', ''ay'', ''az'', ''gx'', ''gy'', ''gz''] =
     map (Some \<circ> JNumber) [ts s, ax s, ay s, az s, gx s, gy s, gz s]"
proof -
  from depth_to_distance_returns [OF ne] obtain d where
    d: "depth_to_distance rnd (frame_depth f) MIN_DIST MAX_DIST = Inr d" by blast
  have cam: "\<exists>st'. camera_iter rnd (Frame f) st = Inr st' \<and>
      imu_buffer_stream st' =
        JObject [(''timestamp'', JNumber (frame_time f)),
                 (''imu'', JArray (map sample_json
                    (filter (in_window (frame_time f)) (imu_buffer st))))]"
    using deque_append_last [of SYNCED_MAXLEN "synced_imu st"]
    by (simp add: camera_iter_def camera_body_states_ok [OF d] imu_buffer_stream_def
        SYNCED_MAXLEN_def)
  show ?thesis
    using cam
    by (simp add: imu_buffer_stream_def init_state_def sample_json_def split: prod.splits)
qed

theorem imu_buffer_stream_latest_witness:
  "frame_depth \<lparr>frame_jpeg = ''J'', frame_depth = [2], frame_time = Fin 100\<rparr> \<noteq> [] \<and>
   (\<exists>st'. camera_iter (fl Binary64)
        (Frame \<lparr>frame_jpeg = ''J'', frame_depth = [2], frame_time = Fin 100\<rparr>)
        ((init_state (Fin 0))\<lparr>imu_buffer :=
           [\<lparr>ts = Fin 98, ax = Fin 0, ay = Fin 0, az = Fin 0, gx = Fin 0, gy = Fin 0, gz = Fin 0\<rparr>,
            \<lparr>ts = Fin (199 / 2), ax = Fin 1, ay = Fin 2, az = Fin 3,
             gx = Fin 4, gy = Fin 5, gz = Fin 6\<rparr>]\<rparr>)
      = Inr st' \<and>
      imu_buffer_stream st' =
        JObject [(''timestamp'', JNumber (Fin 100)),
                 (''imu'', JArray [JObject [(''ts'', JNumber (Fin (199 / 2))),
                    (''ax'', JNumber (Fin 1)), (''ay'', JNumber (Fin 2)), (''az'', JNumber (Fin 3)),
                    (''gx'', JNumber (Fin 4)), (''gy'', JNumber (Fin 5)), (''gz'', JNumber (Fin 6))]])])"
proof -
  let ?f = "\<lparr>frame_jpeg = ''J'', frame_depth = [2], frame_time = Fin 100\<rparr>"
  have ne: "frame_depth ?f \<noteq> []" by simp
  let ?st = "(init_state (Fin 0))\<lparr>imu_buffer :=
           [\<lparr>ts = Fin 98, ax = Fin 0, ay = Fin 0, az = Fin 0, gx = Fin 0, gy = Fin 0, gz = Fin 0\<rparr>,
            \<lparr>ts = Fin (199 / 2), ax = Fin 1, ay = Fin 2, az = Fin 3,
             gx = Fin 4, gy = Fin 5, gz = Fin 6\<rparr>]\<rparr>"
  from imu_buffer_stream_latest [OF ne, of "Fin 0" ?st "fl Binary64"]
  obtain st' where st': "camera_iter (fl Binary64) (Frame ?f) ?st = Inr st'"
    "imu_buffer_stream st' =
        JObject [(''timestamp'', JNumber (frame_time ?f)),
                 (''imu'', JArray (map sample_json
                    (filter (in_window (frame_time ?f)) (imu_buffer ?st))))]"
    by blast
  from st'(2) have "imu_buffer_stream st' =
        JObject [(''timestamp'', JNumber (Fin 100)),
                 (''imu'', JArray [JObject [(''ts'', JNumber (Fin (199 / 2))),
                    (''ax'', JNumber (Fin 1)), (''ay'', JNumber (Fin 2)), (''az'', JNumber (Fin 3)),
                    (''gx'', JNumber (Fin 4)), (''gy'', JNumber (Fin 5)), (''gz'', JNumber (Fin 6))]])]"
    by (simp add: in_window_def sample_json_def float64_small fl_numeral64 edge_b64_4)
  with st'(1) ne show ?thesis by blast
qed

text \<open>
  The members are not named \<open>frame_timestamp\<close>, \<open>samples\<close> and \<open>timestamp\<close>: the object
  returned for an empty history has neither of the first two, and a sample's object has its
  timestamp under \<open>ts\<close>.
\<close>

theorem imu_buffer_stream_keys_counterexample:
  "imu_buffer_stream (init_state (Fin 0)) = JObject [(''timestamp'', JNull), (''imu'', JArray [])] \<and>
   imu_buffer_stream (init_state (Fin 0)) \<noteq>
     JObject [(''frame_timestamp'', JNull), (''samples'', JArray [])] \<and>
   json_get (imu_buffer_stream (init_state (Fin 0))) ''frame_timestamp'' = None \<and>
   json_get (imu_buffer_stream (init_state (Fin 0))) ''samples'' = None \<and>
   json_get (sample_json \<lparr>ts = Fin 7, ax = Fin 1, ay = Fin 2, az = Fin 3,
      gx = Fin 4, gy = Fin 5, gz = Fin 6\<rparr>) ''timestamp'' = None \<and>
   json_get (sample_json \<lparr>ts = Fin 7, ax = Fin 1, ay = Fin 2, az = Fin 3,
      gx = Fin 4, gy = Fin 5, gz = Fin 6\<rparr>) ''ts'' = Some (JNumber (Fin 7))"
  by (simp add: imu_buffer_stream_def init_state_def sample_json_def)

end
